theory Spec2Isabelle
  imports Main "HOL-Library.Word"
begin

unbundle bit_operations_syntax

section \<open>The filesystem the bundler works on\<close>

text \<open>
  The bundler (\<^verbatim>\<open>src/unnamed/part_000\<close>) is a sequence of calls into Go's \<^verbatim>\<open>os\<close>,
  \<^verbatim>\<open>os/exec\<close> and \<^verbatim>\<open>path/filepath\<close> packages. Its own code is translated below
  function by function; the library calls are modelled here, after their documentation.

  \<^item> A path is the list of its components in clean form (\<^verbatim>\<open>output/bin/foo\<close> is
    \<open>[''output'', ''bin'', ''foo'']\<close>); the empty list is the empty path string, which
    every system call refuses. One list names one file: relative and absolute spellings of
    a file are not distinguished, and the directory the process runs in is the root of the
    name space (it exists and is a directory). An entry is looked up by its full path: in a
    tree, where the parent of every entry is a directory, that is what walking the path
    gives. A new entry is only ever made in a directory.
  \<^item> A node is a regular file (bytes and permission bits), a directory or a symbolic link
    holding the components of its target, \<^verbatim>\<open>..\<close> included. A link in the last component
    of a path is followed by the calls that follow links (\<^verbatim>\<open>Stat\<close>, \<^verbatim>\<open>ReadFile\<close>,
    \<^verbatim>\<open>WriteFile\<close>, \<^verbatim>\<open>Chmod\<close>), at most 40 times as on Linux. A directory that is
    reached through a link is outside the model: where a directory is needed, a link is
    an error.
  \<^item> Permission bits are recorded (creation applies the umask, \<^verbatim>\<open>Chmod\<close> does not) but
    not enforced: the process is taken to have the access rights its calls need, and no
    call fails with \<^verbatim>\<open>EACCES\<close> or \<^verbatim>\<open>EPERM\<close>. Where the process lacks a right, the
    program returns an error that the model does not have. The statements below are
    therefore about a run that succeeds, as a hypothesis, or about an error the model does
    have; none says of worlds in general that a run succeeds.
\<close>

type_synonym path = "string list"
type_synonym bytes = string
type_synonym perm = "32 word"

datatype node = File bytes perm | Dir perm | Symlink "string list"

type_synonym fs = "path \<Rightarrow> node option"

datatype error =
    ENOENT | ENOTDIR | EISDIR | EEXIST | ELOOP
  | NotRegular path
  | SharunNotFound
  | StripNotFound
  | StripFailed path
  | LddFailed

text \<open>The mutating calls the program makes, in order, whether they succeed or not.\<close>

datatype syscall =
    MkdirAllCall path perm
  | WriteFileCall path bytes perm
  | ChmodCall path perm
  | SymlinkCall "string list" path
  | StripCall path

text \<open>What the program prints: \<^verbatim>\<open>fmt.Println\<close>/\<^verbatim>\<open>fmt.Printf\<close> lines and \<^verbatim>\<open>log.Printf\<close> lines.\<close>

datatype message =
    ErrorSpecifyBinary
  | ProcessedStatic string
  | ProcessedDynamic string
  | ErrorProcessing path error

record world =
  files :: fs
  calls :: "syscall list"
  printed :: "message list"

text \<open>Octal 0755, 0644 and 0111 (the three execute bits).\<close>

definition perm0755 :: perm where "perm0755 = 493"
definition perm0644 :: perm where "perm0644 = 420"
definition perm0111 :: perm where "perm0111 = 73"

subsection \<open>Path resolution\<close>

text \<open>The target of a link, read from the directory that holds the link.\<close>

fun normalise :: "path \<Rightarrow> string list \<Rightarrow> path" where
  "normalise acc [] = acc"
| "normalise acc (c # cs) =
     (if c = ''..'' then normalise (butlast acc) cs
      else if c = ''.'' \<or> c = [] then normalise acc cs
      else normalise (acc @ [c]) cs)"

definition linkTarget :: "path \<Rightarrow> string list \<Rightarrow> path" where
  "linkTarget p t = normalise (butlast p) t"

fun follow :: "fs \<Rightarrow> nat \<Rightarrow> path \<Rightarrow> error + path" where
  "follow fs 0 p = (case fs p of Some (Symlink t) \<Rightarrow> Inl ELOOP | _ \<Rightarrow> Inr p)"
| "follow fs (Suc n) p =
     (case fs p of Some (Symlink t) \<Rightarrow> follow fs n (linkTarget p t) | _ \<Rightarrow> Inr p)"

text \<open>
  The path a call works on. The empty path is refused. The root has no node of its own,
  so a link that leads to the root itself is refused as well.
\<close>

definition resolve :: "fs \<Rightarrow> path \<Rightarrow> error + path" where
  "resolve fs p =
     (if p = [] then Inl ENOENT
      else case follow fs 40 p of
             Inl e \<Rightarrow> Inl e
           | Inr q \<Rightarrow> if q = [] then Inl EISDIR else Inr q)"

text \<open>Creating an entry needs its parent directory.\<close>

definition parentErr :: "fs \<Rightarrow> path \<Rightarrow> error option" where
  "parentErr fs q =
     (if butlast q = [] then None
      else case fs (butlast q) of
             Some (Dir m) \<Rightarrow> None
           | Some (File c m) \<Rightarrow> Some ENOTDIR
           | Some (Symlink t) \<Rightarrow> Some ENOTDIR
           | None \<Rightarrow> Some ENOENT)"

subsection \<open>The \<^verbatim>\<open>os\<close> calls\<close>

datatype fileMode = ModeRegular perm | ModeDir perm

record fileInfo =
  Name :: string
  Mode :: fileMode

definition IsRegular :: "fileMode \<Rightarrow> bool" where
  "IsRegular m = (case m of ModeRegular x \<Rightarrow> True | ModeDir x \<Rightarrow> False)"

definition IsDir :: "fileMode \<Rightarrow> bool" where
  "IsDir m = (case m of ModeRegular x \<Rightarrow> False | ModeDir x \<Rightarrow> True)"

text \<open>\<^verbatim>\<open>os.Stat\<close> follows links; \<^verbatim>\<open>Name()\<close> is the last component of the path given.\<close>

definition os_Stat :: "fs \<Rightarrow> path \<Rightarrow> error + fileInfo" where
  "os_Stat fs p =
     (case resolve fs p of
        Inl e \<Rightarrow> Inl e
      | Inr q \<Rightarrow>
          (case fs q of
             None \<Rightarrow> Inl ENOENT
           | Some (File c m) \<Rightarrow> Inr \<lparr>Name = last p, Mode = ModeRegular m\<rparr>
           | Some (Dir m) \<Rightarrow> Inr \<lparr>Name = last p, Mode = ModeDir m\<rparr>
           | Some (Symlink t) \<Rightarrow> Inl ELOOP))"

definition os_ReadFile :: "fs \<Rightarrow> path \<Rightarrow> error + bytes" where
  "os_ReadFile fs p =
     (case resolve fs p of
        Inl e \<Rightarrow> Inl e
      | Inr q \<Rightarrow>
          (case fs q of
             None \<Rightarrow> Inl ENOENT
           | Some (File c m) \<Rightarrow> Inr c
           | Some (Dir m) \<Rightarrow> Inl EISDIR
           | Some (Symlink t) \<Rightarrow> Inl ELOOP))"

text \<open>
  \<^verbatim>\<open>os.WriteFile(name, data, perm)\<close>: ``If the file does not exist, WriteFile creates it
  with permissions perm (before umask); otherwise WriteFile truncates it before writing,
  without changing permissions.''
\<close>

definition fs_WriteFile :: "perm \<Rightarrow> path \<Rightarrow> bytes \<Rightarrow> perm \<Rightarrow> fs \<Rightarrow> error option \<times> fs" where
  "fs_WriteFile um p data pm fs =
     (case resolve fs p of
        Inl e \<Rightarrow> (Some e, fs)
      | Inr q \<Rightarrow>
          (case fs q of
             Some (File c m) \<Rightarrow> (None, fs(q \<mapsto> File data m))
           | Some (Dir m) \<Rightarrow> (Some EISDIR, fs)
           | Some (Symlink t) \<Rightarrow> (Some ELOOP, fs)
           | None \<Rightarrow>
               (case parentErr fs q of
                  Some e \<Rightarrow> (Some e, fs)
                | None \<Rightarrow> (None, fs(q \<mapsto> File data (pm AND NOT um))))))"

text \<open>\<^verbatim>\<open>os.Chmod\<close> follows links and sets the bits as given.\<close>

definition fs_Chmod :: "path \<Rightarrow> perm \<Rightarrow> fs \<Rightarrow> error option \<times> fs" where
  "fs_Chmod p pm fs =
     (case resolve fs p of
        Inl e \<Rightarrow> (Some e, fs)
      | Inr q \<Rightarrow>
          (case fs q of
             None \<Rightarrow> (Some ENOENT, fs)
           | Some (File c m) \<Rightarrow> (None, fs(q \<mapsto> File c pm))
           | Some (Dir m) \<Rightarrow> (None, fs(q \<mapsto> Dir pm))
           | Some (Symlink t) \<Rightarrow> (Some ELOOP, fs)))"

text \<open>\<^verbatim>\<open>os.Symlink(oldname, newname)\<close> fails when anything is at \<^verbatim>\<open>newname\<close>, a link included.\<close>

definition fs_Symlink :: "string list \<Rightarrow> path \<Rightarrow> fs \<Rightarrow> error option \<times> fs" where
  "fs_Symlink t p fs =
     (if p = [] then (Some ENOENT, fs)
      else case fs p of
             Some n \<Rightarrow> (Some EEXIST, fs)
           | None \<Rightarrow>
               (case parentErr fs p of
                  Some e \<Rightarrow> (Some e, fs)
                | None \<Rightarrow> (None, fs(p \<mapsto> Symlink t))))"

text \<open>
  \<^verbatim>\<open>os.Mkdir\<close>, as \<^verbatim>\<open>os.MkdirAll\<close> uses it: on failure \<^verbatim>\<open>MkdirAll\<close> looks again with
  \<^verbatim>\<open>Lstat\<close> and is content when a directory is there.
\<close>

definition fs_Mkdir :: "perm \<Rightarrow> path \<Rightarrow> perm \<Rightarrow> fs \<Rightarrow> error option \<times> fs" where
  "fs_Mkdir um p pm fs =
     (case fs p of
        Some (Dir m) \<Rightarrow> (None, fs)
      | Some (File c m) \<Rightarrow> (Some EEXIST, fs)
      | Some (Symlink t) \<Rightarrow> (Some EEXIST, fs)
      | None \<Rightarrow>
          (case parentErr fs p of
             Some e \<Rightarrow> (Some e, fs)
           | None \<Rightarrow> (None, fs(p \<mapsto> Dir (pm AND NOT um)))))"

text \<open>
  \<^verbatim>\<open>os.MkdirAll\<close>: the fast path stats the path (a directory is success, anything else
  \<^verbatim>\<open>ENOTDIR\<close>); the slow path makes the parent first, then the directory itself.
\<close>

function fs_MkdirAll :: "perm \<Rightarrow> path \<Rightarrow> perm \<Rightarrow> fs \<Rightarrow> error option \<times> fs" where
  "fs_MkdirAll um p pm fs =
     (if p = [] then (Some ENOENT, fs)
      else case os_Stat fs p of
             Inr info \<Rightarrow> (if IsDir (Mode info) then (None, fs) else (Some ENOTDIR, fs))
           | Inl e \<Rightarrow>
               (if butlast p = [] then fs_Mkdir um p pm fs
                else case fs_MkdirAll um (butlast p) pm fs of
                       (Some e', fs') \<Rightarrow> (Some e', fs')
                     | (None, fs') \<Rightarrow> fs_Mkdir um p pm fs'))"
  by pat_completeness auto
termination
  by (relation "measure (\<lambda>(u, p, pm, fs). length p)") auto

section \<open>The program\<close>

subsection \<open>Flags and the environment\<close>

text \<open>
  The four flags (lines 23--28). An empty \<open>dstDirPath\<close> is the empty string.
\<close>

record config =
  strip :: bool
  oneDir :: bool
  createLinks :: bool
  dstDirPath :: path

definition defaultDstDir :: path where "defaultDstDir = [''output'']"
definition defaultSharedDir :: string where "defaultSharedDir = ''shared''"
definition defaultLibDir :: string where "defaultLibDir = ''lib''"
definition defaultBinDir :: string where "defaultBinDir = ''bin''"

definition defaultConfig :: config where
  "defaultConfig =
     \<lparr>strip = False, oneDir = True, createLinks = True, dstDirPath = defaultDstDir\<rparr>"

text \<open>
  What the program asks of its surroundings and does not compute itself:
  \<^item> \<open>lookPath\<close>: \<^verbatim>\<open>exec.LookPath\<close>, the search along \<^verbatim>\<open>$PATH\<close>;
  \<^item> \<open>lddCmd\<close>: running \<^verbatim>\<open>ldd\<close> on a path to its end; \<open>None\<close> when \<^verbatim>\<open>CombinedOutput\<close>
    returns an error (the tool is missing or exits with a non-zero status), otherwise the
    text it printed;
  \<^item> \<open>lddFList\<close>: \<^verbatim>\<open>ldd.FList\<close> of u-root, the flat list of the files a binary loads;
  \<^item> \<open>stripCmd\<close>: what \<^verbatim>\<open>strip\<close> makes of a file's bytes; \<open>None\<close> when it exits with a
    non-zero status;
  \<^item> \<open>umask\<close>: the file mode creation mask of the process.
\<close>

record env =
  lookPath :: "string \<Rightarrow> path option"
  lddCmd :: "path \<Rightarrow> string option"
  lddFList :: "path \<Rightarrow> error + path list"
  stripCmd :: "bytes \<Rightarrow> bytes option"
  umask :: perm

subsection \<open>Library calls on the world\<close>

definition os_MkdirAll :: "env \<Rightarrow> path \<Rightarrow> perm \<Rightarrow> world \<Rightarrow> error option \<times> world" where
  "os_MkdirAll ev p pm s =
     (case fs_MkdirAll (umask ev) p pm (files s) of
        (r, fs') \<Rightarrow> (r, s\<lparr>files := fs', calls := calls s @ [MkdirAllCall p pm]\<rparr>))"

definition os_WriteFile :: "env \<Rightarrow> path \<Rightarrow> bytes \<Rightarrow> perm \<Rightarrow> world \<Rightarrow> error option \<times> world" where
  "os_WriteFile ev p data pm s =
     (case fs_WriteFile (umask ev) p data pm (files s) of
        (r, fs') \<Rightarrow> (r, s\<lparr>files := fs', calls := calls s @ [WriteFileCall p data pm]\<rparr>))"

definition os_Chmod :: "path \<Rightarrow> perm \<Rightarrow> world \<Rightarrow> error option \<times> world" where
  "os_Chmod p pm s =
     (case fs_Chmod p pm (files s) of
        (r, fs') \<Rightarrow> (r, s\<lparr>files := fs', calls := calls s @ [ChmodCall p pm]\<rparr>))"

definition os_Symlink :: "string list \<Rightarrow> path \<Rightarrow> world \<Rightarrow> error option \<times> world" where
  "os_Symlink t p s =
     (case fs_Symlink t p (files s) of
        (r, fs') \<Rightarrow> (r, s\<lparr>files := fs', calls := calls s @ [SymlinkCall t p]\<rparr>))"

text \<open>
  \<^verbatim>\<open>exec.Command(stripPath, filePath).Run()\<close>: the tool rewrites a regular file in place
  and keeps its permission bits; on anything else it fails.
\<close>

definition fs_Strip :: "env \<Rightarrow> path \<Rightarrow> fs \<Rightarrow> error option \<times> fs" where
  "fs_Strip ev p fs =
     (case resolve fs p of
        Inl e \<Rightarrow> (Some (StripFailed p), fs)
      | Inr q \<Rightarrow>
          (case fs q of
             Some (File c m) \<Rightarrow>
               (case stripCmd ev c of
                  None \<Rightarrow> (Some (StripFailed p), fs)
                | Some c' \<Rightarrow> (None, fs(q \<mapsto> File c' m)))
           | _ \<Rightarrow> (Some (StripFailed p), fs)))"

definition runStrip :: "env \<Rightarrow> path \<Rightarrow> world \<Rightarrow> error option \<times> world" where
  "runStrip ev p s =
     (case fs_Strip ev p (files s) of
        (r, fs') \<Rightarrow> (r, s\<lparr>files := fs', calls := calls s @ [StripCall p]\<rparr>))"

definition emit :: "message \<Rightarrow> world \<Rightarrow> world" where
  "emit m s = s\<lparr>printed := printed s @ [m]\<rparr>"

text \<open>\<^verbatim>\<open>filepath.Join\<close> and \<^verbatim>\<open>filepath.Base\<close> on clean paths.\<close>

definition Join :: "path \<Rightarrow> string \<Rightarrow> path" where
  "Join d c = d @ [c]"

definition Base :: "path \<Rightarrow> string" where
  "Base p = (if p = [] then ''.'' else last p)"

text \<open>\<^verbatim>\<open>if err := f(); err != nil { return err }\<close>: the first error ends the function.\<close>

fun andThen :: "error option \<times> world \<Rightarrow> (world \<Rightarrow> error option \<times> world) \<Rightarrow> error option \<times> world" where
  "andThen (Some e, s) f = (Some e, s)"
| "andThen (None, s) f = f s"

subsection \<open>Strings\<close>

text \<open>\<^verbatim>\<open>strings.TrimSpace\<close>, \<^verbatim>\<open>strings.ToLower\<close> and \<^verbatim>\<open>strings.Contains\<close>, on ASCII text.\<close>

definition isSpace :: "char \<Rightarrow> bool" where
  "isSpace c = (c = CHR '' '' \<or> c = CHR 0x09 \<or> c = CHR 0x0A \<or> c = CHR 0x0B
                \<or> c = CHR 0x0C \<or> c = CHR 0x0D)"

definition TrimSpace :: "string \<Rightarrow> string" where
  "TrimSpace s = rev (dropWhile isSpace (rev (dropWhile isSpace s)))"

definition toLowerChar :: "char \<Rightarrow> char" where
  "toLowerChar c =
     (let n = (of_char c :: nat) in if 65 \<le> n \<and> n \<le> 90 then char_of (n + 32) else c)"

definition ToLower :: "string \<Rightarrow> string" where
  "ToLower s = map toLowerChar s"

fun hasPrefix :: "string \<Rightarrow> string \<Rightarrow> bool" where
  "hasPrefix s [] = True"
| "hasPrefix [] (c # cs) = False"
| "hasPrefix (x # xs) (c # cs) = (x = c \<and> hasPrefix xs cs)"

fun Contains :: "string \<Rightarrow> string \<Rightarrow> bool" where
  "Contains [] substr = (substr = [])"
| "Contains (x # xs) substr = (hasPrefix (x # xs) substr \<or> Contains xs substr)"

subsection \<open>The functions of the program\<close>

text \<open>\<^verbatim>\<open>tryStrip\<close>, lines 31--45.\<close>

definition tryStrip :: "config \<Rightarrow> env \<Rightarrow> path \<Rightarrow> world \<Rightarrow> error option \<times> world" where
  "tryStrip cfg ev filePath s =
     (if strip cfg then
        (case lookPath ev ''strip'' of
           None \<Rightarrow> (Some StripNotFound, s)
         | Some stripPath \<Rightarrow> runStrip ev filePath s)
      else (None, s))"

text \<open>\<^verbatim>\<open>isDynamicExecutable\<close>, lines 47--61: the result and the error, which is always nil.\<close>

definition isDynamicExecutable :: "env \<Rightarrow> path \<Rightarrow> bool \<times> error option" where
  "isDynamicExecutable ev binaryPath =
     (case lddCmd ev binaryPath of
        None \<Rightarrow> (False, None)
      | Some out \<Rightarrow>
          (let outputStr = TrimSpace out;
               outputLower = ToLower outputStr
           in if Contains outputLower ''not a dynamic executable''
                 \<or> Contains outputLower ''not a valid dynamic program''
              then (False, None)
              else (True, None)))"

text \<open>\<^verbatim>\<open>copyFile\<close>, lines 64--70.\<close>

definition copyFile :: "env \<Rightarrow> path \<Rightarrow> path \<Rightarrow> world \<Rightarrow> error option \<times> world" where
  "copyFile ev src dst s =
     (case os_ReadFile (files s) src of
        Inl err \<Rightarrow> (Some err, s)
      | Inr input \<Rightarrow> os_WriteFile ev dst input perm0644 s)"

text \<open>\<^verbatim>\<open>createSymlink\<close>, lines 73--75.\<close>

definition createSymlink :: "string list \<Rightarrow> path \<Rightarrow> world \<Rightarrow> error option \<times> world" where
  "createSymlink src dst s = os_Symlink src dst s"

text \<open>\<^verbatim>\<open>findDynExec\<close>, lines 78--84.\<close>

definition findDynExec :: "env \<Rightarrow> error + path" where
  "findDynExec ev =
     (case lookPath ev ''sharun'' of
        None \<Rightarrow> Inl SharunNotFound
      | Some p \<Rightarrow> Inr p)"

text \<open>\<^verbatim>\<open>getLibs\<close>, lines 194--200.\<close>

definition getLibs :: "env \<Rightarrow> path \<Rightarrow> error + path list" where
  "getLibs ev binaryPath =
     (case lddFList ev binaryPath of
        Inl err \<Rightarrow> Inl err
      | Inr dependencies \<Rightarrow> Inr dependencies)"

text \<open>The loop of \<^verbatim>\<open>processBinary\<close> over the libraries, lines 180--188.\<close>

fun copyLibs :: "config \<Rightarrow> env \<Rightarrow> path \<Rightarrow> path list \<Rightarrow> world \<Rightarrow> error option \<times> world" where
  "copyLibs cfg ev sharedLibDir [] s = (None, s)"
| "copyLibs cfg ev sharedLibDir (libPath # rest) s =
     (let dstLibPath = Join sharedLibDir (Base libPath)
      in andThen (copyFile ev libPath dstLibPath s) (\<lambda>s.
         andThen (tryStrip cfg ev dstLibPath s) (\<lambda>s.
         copyLibs cfg ev sharedLibDir rest s)))"

text \<open>The branch of \<^verbatim>\<open>processBinary\<close> for a static binary, lines 107--125.\<close>

definition processStatic :: "config \<Rightarrow> env \<Rightarrow> path \<Rightarrow> fileInfo \<Rightarrow> world \<Rightarrow> error option \<times> world" where
  "processStatic cfg ev binaryPath fileInfo s =
     (let binDir = Join (dstDirPath cfg) defaultBinDir
      in andThen (os_MkdirAll ev binDir perm0755 s) (\<lambda>s.
         let dstBinaryPath = Join binDir (Name fileInfo)
         in andThen (copyFile ev binaryPath dstBinaryPath s) (\<lambda>s.
            andThen (tryStrip cfg ev dstBinaryPath s) (\<lambda>s.
            andThen (os_Chmod dstBinaryPath perm0755 s) (\<lambda>s.
            (None, emit (ProcessedStatic (Name fileInfo)) s))))))"

text \<open>The rest of \<^verbatim>\<open>processBinary\<close>, for a dynamic binary, lines 127--190.\<close>

definition processDynamic :: "config \<Rightarrow> env \<Rightarrow> path \<Rightarrow> fileInfo \<Rightarrow> world \<Rightarrow> error option \<times> world" where
  "processDynamic cfg ev binaryPath fileInfo s =
     (case findDynExec ev of
        Inl err \<Rightarrow> (Some err, s)
      | Inr dynexecPath \<Rightarrow>
          (let dstDynExec = Join (dstDirPath cfg) ''sharun''
           in andThen (copyFile ev dynexecPath dstDynExec s) (\<lambda>s.
              andThen (os_Chmod dstDynExec perm0755 s) (\<lambda>s.
              let binDir = Join (dstDirPath cfg) defaultBinDir
              in andThen (os_MkdirAll ev binDir perm0755 s) (\<lambda>s.
                 let symlinkPath = Join binDir (Name fileInfo)
                 in andThen (if createLinks cfg
                             then createSymlink [''..'', ''sharun''] symlinkPath s
                             else (None, s)) (\<lambda>s.
                    let sharedDir = Join (dstDirPath cfg) defaultSharedDir;
                        sharedBinDir = Join sharedDir defaultBinDir;
                        sharedLibDir = Join sharedDir defaultLibDir
                    in andThen (os_MkdirAll ev sharedBinDir perm0755 s) (\<lambda>s.
                       andThen (os_MkdirAll ev sharedLibDir perm0755 s) (\<lambda>s.
                       let sharedBinaryPath = Join sharedBinDir (Name fileInfo)
                       in andThen (copyFile ev binaryPath sharedBinaryPath s) (\<lambda>s.
                          andThen (tryStrip cfg ev sharedBinaryPath s) (\<lambda>s.
                          case getLibs ev binaryPath of
                            Inl err \<Rightarrow> (Some err, s)
                          | Inr libPaths \<Rightarrow>
                              andThen (copyLibs cfg ev sharedLibDir libPaths s) (\<lambda>s.
                              (None, emit (ProcessedDynamic (Name fileInfo)) s))))))))))))"

text \<open>\<^verbatim>\<open>processBinary\<close>, lines 86--191.\<close>

definition processBinary :: "config \<Rightarrow> env \<Rightarrow> path \<Rightarrow> world \<Rightarrow> error option \<times> world" where
  "processBinary cfg ev binaryPath s =
     (case os_Stat (files s) binaryPath of
        Inl err \<Rightarrow> (Some err, s)
      | Inr fileInfo \<Rightarrow>
          if \<not> IsRegular (Mode fileInfo) then (Some (NotRegular binaryPath), s)
          else
            (case isDynamicExecutable ev binaryPath of
               (isDynamic, Some err) \<Rightarrow> (Some err, s)
             | (isDynamic, None) \<Rightarrow>
                 andThen (os_MkdirAll ev (dstDirPath cfg) perm0755 s) (\<lambda>s.
                 if \<not> isDynamic then processStatic cfg ev binaryPath fileInfo s
                 else processDynamic cfg ev binaryPath fileInfo s)))"

text \<open>
  \<^verbatim>\<open>main\<close>, lines 202--220, after \<^verbatim>\<open>flag.Parse\<close>: the flags and the positional arguments are
  given. The result is the exit status and the world left behind. \<^verbatim>\<open>os.Exit(1)\<close> ends the
  process at once; returning from \<^verbatim>\<open>main\<close> is exit status 0.
\<close>

fun mainLoop :: "config \<Rightarrow> env \<Rightarrow> path list \<Rightarrow> world \<Rightarrow> world" where
  "mainLoop cfg ev [] s = s"
| "mainLoop cfg ev (binary # rest) s =
     (case processBinary cfg ev binary s of
        (Some err, s') \<Rightarrow> mainLoop cfg ev rest (emit (ErrorProcessing binary err) s')
      | (None, s') \<Rightarrow> mainLoop cfg ev rest s')"

definition main :: "config \<Rightarrow> env \<Rightarrow> path list \<Rightarrow> world \<Rightarrow> nat \<times> world" where
  "main cfg ev binaryList s =
     (if length binaryList = 0 then (1, emit ErrorSpecifyBinary s)
      else
        let cfg' = (if oneDir cfg \<and> dstDirPath cfg = []
                    then cfg\<lparr>dstDirPath := defaultDstDir\<rparr> else cfg)
        in (0, mainLoop cfg' ev binaryList s))"

section \<open>Notions used in the statements\<close>

text \<open>
  \<open>dirsAdded fs fs'\<close>: \<open>fs'\<close> is \<open>fs\<close> with nothing changed and at most some directories
  added. This is all \<^verbatim>\<open>os.MkdirAll\<close> ever does.
\<close>

definition dirsAdded :: "fs \<Rightarrow> fs \<Rightarrow> bool" where
  "dirsAdded fs fs' =
     (\<forall>k. case fs k of
            None \<Rightarrow> fs' k = None \<or> (\<exists>m. fs' k = Some (Dir m))
          | Some n \<Rightarrow> fs' k = Some n)"

text \<open>How often the program called \<^verbatim>\<open>os.WriteFile\<close> on a path.\<close>

fun isWriteTo :: "path \<Rightarrow> syscall \<Rightarrow> bool" where
  "isWriteTo p (WriteFileCall q d m) = (q = p)"
| "isWriteTo p (MkdirAllCall q m) = False"
| "isWriteTo p (ChmodCall q m) = False"
| "isWriteTo p (SymlinkCall t q) = False"
| "isWriteTo p (StripCall q) = False"

definition writesTo :: "path \<Rightarrow> syscall list \<Rightarrow> nat" where
  "writesTo p cs = length (filter (isWriteTo p) cs)"

text \<open>How often the program called \<^verbatim>\<open>os.Chmod\<close> on a path.\<close>

fun isChmodOf :: "path \<Rightarrow> syscall \<Rightarrow> bool" where
  "isChmodOf p (ChmodCall q m) = (q = p)"
| "isChmodOf p (MkdirAllCall q m) = False"
| "isChmodOf p (WriteFileCall q d m) = False"
| "isChmodOf p (SymlinkCall t q) = False"
| "isChmodOf p (StripCall q) = False"

definition chmodsOf :: "path \<Rightarrow> syscall list \<Rightarrow> nat" where
  "chmodsOf p cs = length (filter (isChmodOf p) cs)"

section \<open>A small system to run the program on\<close>

text \<open>
  The launcher \<^verbatim>\<open>sharun\<close> is installed in \<^verbatim>\<open>/usr/bin\<close>. \<^verbatim>\<open>a\<close> is a static binary and
  \<^verbatim>\<open>notes\<close> a text file: \<^verbatim>\<open>ldd\<close> exits with an error on both. \<^verbatim>\<open>c\<close>, \<^verbatim>\<open>d\<close>, \<^verbatim>\<open>x/foo\<close> and
  \<^verbatim>\<open>y/foo\<close> are dynamic. \<^verbatim>\<open>c\<close> and \<^verbatim>\<open>x/foo\<close> load \<^verbatim>\<open>libc.so.6\<close> from \<^verbatim>\<open>liba\<close>, \<^verbatim>\<open>d\<close>
  loads a different \<^verbatim>\<open>libc.so.6\<close> from \<^verbatim>\<open>libb\<close>, and the libraries of \<^verbatim>\<open>y/foo\<close> cannot be
  listed. The umask is 022.
\<close>

definition exEnv :: env where
  "exEnv =
     \<lparr>lookPath = (\<lambda>n. if n = ''sharun'' then Some [''usr'', ''bin'', ''sharun''] else None),
      lddCmd = (\<lambda>p. if p = [''c''] \<or> p = [''d''] \<or> p = [''x'', ''foo''] \<or> p = [''y'', ''foo'']
                     then Some ''libc.so.6 => /liba/libc.so.6 (0x00007f0000000000)''
                     else None),
      lddFList = (\<lambda>p. if p = [''c''] then Inr [[''liba'', ''libc.so.6''], [''liba'', ''ld.so'']]
                       else if p = [''d''] then Inr [[''libb'', ''libc.so.6'']]
                       else if p = [''x'', ''foo''] then Inr [[''liba'', ''libc.so.6'']]
                       else Inl LddFailed),
      stripCmd = (\<lambda>c. Some c),
      umask = 18\<rparr>"

definition exFiles :: fs where
  "exFiles =
     [[''a''] \<mapsto> File ''static-A'' 493,
      [''notes''] \<mapsto> File ''plain text'' 420,
      [''c''] \<mapsto> File ''dynamic-C'' 493,
      [''d''] \<mapsto> File ''dynamic-D'' 493,
      [''x''] \<mapsto> Dir 493,
      [''x'', ''foo''] \<mapsto> File ''foo-X'' 493,
      [''y''] \<mapsto> Dir 493,
      [''y'', ''foo''] \<mapsto> File ''foo-Y'' 493,
      [''usr''] \<mapsto> Dir 493,
      [''usr'', ''bin''] \<mapsto> Dir 493,
      [''usr'', ''bin'', ''sharun''] \<mapsto> File ''launcher'' 493,
      [''liba''] \<mapsto> Dir 493,
      [''liba'', ''libc.so.6''] \<mapsto> File ''libc-A'' 420,
      [''liba'', ''ld.so''] \<mapsto> File ''ld'' 493,
      [''libb''] \<mapsto> Dir 493,
      [''libb'', ''libc.so.6''] \<mapsto> File ''libc-B'' 420]"

definition exWorld :: world where
  "exWorld = \<lparr>files = exFiles, calls = [], printed = []\<rparr>"

text \<open>
  The same system with an output tree left by an earlier run: a file \<^verbatim>\<open>bin/a\<close> of mode
  0600, a regular file \<^verbatim>\<open>bin/c\<close>, and a file \<^verbatim>\<open>shared/bin/d\<close> that was made executable
  (mode 0755).
\<close>

definition exWorldOld :: world where
  "exWorldOld =
     \<lparr>files = exFiles([''output''] \<mapsto> Dir 493,
                       [''output'', ''bin''] \<mapsto> Dir 493,
                       [''output'', ''bin'', ''a''] \<mapsto> File ''old'' 384,
                       [''output'', ''bin'', ''c''] \<mapsto> File ''old-c'' 420,
                       [''output'', ''shared''] \<mapsto> Dir 493,
                       [''output'', ''shared'', ''bin''] \<mapsto> Dir 493,
                       [''output'', ''shared'', ''bin'', ''d''] \<mapsto> File ''old-d'' 493),
      calls = [], printed = []\<rparr>"

text \<open>The same system without the launcher on the search path.\<close>

definition exNoLauncher :: env where
  "exNoLauncher = exEnv\<lparr>lookPath := (\<lambda>n. None)\<rparr>"

text \<open>
  The default flags with \<^verbatim>\<open>-create-links=false\<close>.
\<close>

definition exNoLinks :: config where
  "exNoLinks = defaultConfig\<lparr>createLinks := False\<rparr>"

section \<open>Facts about the library calls\<close>

declare fs_MkdirAll.simps [simp del]

lemma andThen_None:
  "andThen r f = (None, s') \<Longrightarrow> \<exists>s1. r = (None, s1) \<and> f s1 = (None, s')"
  by (cases r, rename_tac a b, case_tac a) auto

lemma follow_not_link: "follow fs n p = Inr q \<Longrightarrow> fs q \<noteq> Some (Symlink t)"
  by (induction n arbitrary: p) (auto split: option.splits node.splits)

lemma resolve_not_link: "resolve fs p = Inr q \<Longrightarrow> fs q \<noteq> Some (Symlink t)"
  by (auto simp: resolve_def follow_not_link split: if_splits sum.splits)

lemma follow_same_links:
  assumes "\<And>k t. (fs' k = Some (Symlink t)) = (fs k = Some (Symlink t))"
  shows "follow fs' n p = follow fs n p"
proof (induction n arbitrary: p)
  case 0
  show ?case
  proof (cases "\<exists>t. fs p = Some (Symlink t)")
    case True
    then obtain t where "fs p = Some (Symlink t)" by blast
    moreover from this have "fs' p = Some (Symlink t)" by (simp add: assms)
    ultimately show ?thesis by simp
  next
    case False
    moreover from this have "\<not> (\<exists>t. fs' p = Some (Symlink t))" by (simp add: assms)
    ultimately show ?thesis by (auto split: option.splits node.splits)
  qed
next
  case (Suc n)
  show ?case
  proof (cases "\<exists>t. fs p = Some (Symlink t)")
    case True
    then obtain t where "fs p = Some (Symlink t)" by blast
    moreover from this have "fs' p = Some (Symlink t)" by (simp add: assms)
    ultimately show ?thesis by (simp add: Suc.IH)
  next
    case False
    moreover from this have "\<not> (\<exists>t. fs' p = Some (Symlink t))" by (simp add: assms)
    ultimately show ?thesis by (auto split: option.splits node.splits)
  qed
qed

lemma resolve_same_links:
  assumes "\<And>k t. (fs' k = Some (Symlink t)) = (fs k = Some (Symlink t))"
  shows "resolve fs' p = resolve fs p"
  using follow_same_links [of fs' fs, OF assms] by (simp add: resolve_def)

lemma resolve_upd_file:
  assumes "\<And>t. fs q \<noteq> Some (Symlink t)"
  shows "resolve (fs(q \<mapsto> File c m)) p = resolve fs p"
  by (rule resolve_same_links) (use assms in auto)

lemma resolve_upd_dir:
  assumes "\<And>t. fs q \<noteq> Some (Symlink t)"
  shows "resolve (fs(q \<mapsto> Dir m)) p = resolve fs p"
  by (rule resolve_same_links) (use assms in auto)

lemma os_ReadFile_Inr:
  "(os_ReadFile fs p = Inr c) = (\<exists>q m. resolve fs p = Inr q \<and> fs q = Some (File c m))"
  by (auto simp: os_ReadFile_def split: sum.splits option.splits node.splits)

lemma os_Stat_regular:
  "(\<exists>info. os_Stat fs p = Inr info \<and> IsRegular (Mode info)) = (\<exists>c. os_ReadFile fs p = Inr c)"
  by (auto simp: os_ReadFile_def os_Stat_def IsRegular_def split: sum.splits option.splits node.splits)

lemma fs_WriteFile_None:
  assumes "fs_WriteFile um dst c pm fs = (None, fs')"
  shows "\<exists>q m. resolve fs dst = Inr q \<and> fs' = fs(q \<mapsto> File c m) \<and> (\<forall>t. fs q \<noteq> Some (Symlink t))
       \<and> (case fs q of Some (File c0 m0) \<Rightarrow> m = m0 | _ \<Rightarrow> fs q = None \<and> m = pm AND NOT um)"
proof -
  from assms obtain q where q: "resolve fs dst = Inr q"
    by (auto simp: fs_WriteFile_def split: sum.splits)
  have nl: "\<forall>t. fs q \<noteq> Some (Symlink t)" using q by (simp add: resolve_not_link)
  from assms q show ?thesis
    by (cases "fs q") (auto simp: fs_WriteFile_def nl split: option.splits node.splits)
qed

lemma fs_WriteFile_read:
  assumes "fs_WriteFile um dst c pm fs = (None, fs')"
  shows "os_ReadFile fs' dst = Inr c"
    and "os_ReadFile fs src = Inr c \<Longrightarrow> os_ReadFile fs' src = Inr c"
proof -
  from fs_WriteFile_None [OF assms] obtain q m where q: "resolve fs dst = Inr q"
    and fs': "fs' = fs(q \<mapsto> File c m)" and nl: "\<And>t. fs q \<noteq> Some (Symlink t)"
    by blast
  have r: "\<And>p. resolve fs' p = resolve fs p"
    unfolding fs' using nl by (rule resolve_upd_file)
  show "os_ReadFile fs' dst = Inr c"
    unfolding os_ReadFile_Inr r using q by (simp add: fs')
  show "os_ReadFile fs src = Inr c \<Longrightarrow> os_ReadFile fs' src = Inr c"
    unfolding os_ReadFile_Inr r by (auto simp: fs')
qed

lemma copyFile_post:
  assumes "copyFile ev src dst s = (None, s')"
  shows "\<exists>c. os_ReadFile (files s) src = Inr c \<and> os_ReadFile (files s') dst = Inr c
             \<and> os_ReadFile (files s') src = Inr c"
proof -
  from assms obtain c where c: "os_ReadFile (files s) src = Inr c"
    and w: "os_WriteFile ev dst c perm0644 s = (None, s')"
    by (auto simp: copyFile_def split: sum.splits)
  from w obtain fs' where f: "fs_WriteFile (umask ev) dst c perm0644 (files s) = (None, fs')"
    and s': "files s' = fs'"
    by (auto simp: os_WriteFile_def split: prod.splits)
  from fs_WriteFile_read [OF f] c show ?thesis by (auto simp: s')
qed

lemma fs_Chmod_None:
  assumes "fs_Chmod p pm fs = (None, fs')"
  shows "\<exists>q. resolve fs p = Inr q \<and> (\<forall>t. fs q \<noteq> Some (Symlink t))
       \<and> ((\<exists>c m. fs q = Some (File c m) \<and> fs' = fs(q \<mapsto> File c pm))
          \<or> (\<exists>m. fs q = Some (Dir m) \<and> fs' = fs(q \<mapsto> Dir pm)))"
proof -
  from assms obtain q where q: "resolve fs p = Inr q"
    by (auto simp: fs_Chmod_def split: sum.splits)
  have nl: "\<forall>t. fs q \<noteq> Some (Symlink t)" using q by (simp add: resolve_not_link)
  from assms q show ?thesis
    by (cases "fs q") (auto simp: fs_Chmod_def nl split: option.splits node.splits)
qed

lemma fs_Chmod_resolve:
  assumes "fs_Chmod p pm fs = (None, fs')"
  shows "resolve fs' x = resolve fs x"
  using fs_Chmod_None [OF assms] by (auto simp: resolve_upd_file resolve_upd_dir)

lemma fs_Chmod_read:
  assumes "fs_Chmod p pm fs = (None, fs')"
  shows "(os_ReadFile fs' x = Inr c) = (os_ReadFile fs x = Inr c)"
  unfolding os_ReadFile_Inr fs_Chmod_resolve [OF assms]
  using fs_Chmod_None [OF assms] by (auto split: if_splits)

lemma fs_Chmod_stat:
  assumes "fs_Chmod p pm fs = (None, fs')" and "os_ReadFile fs p = Inr c"
  shows "os_Stat fs' p = Inr \<lparr>Name = last p, Mode = ModeRegular pm\<rparr>"
  using fs_Chmod_None [OF assms(1)] assms(2)
  unfolding os_ReadFile_Inr os_Stat_def fs_Chmod_resolve [OF assms(1)]
  by auto

lemma dirsAdded_refl: "dirsAdded fs fs"
  by (simp add: dirsAdded_def split: option.splits)

lemma dirsAdded_trans: "dirsAdded a b \<Longrightarrow> dirsAdded b c \<Longrightarrow> dirsAdded a c"
  unfolding dirsAdded_def
proof (intro allI)
  fix k
  assume ab: "\<forall>k. case a k of None \<Rightarrow> b k = None \<or> (\<exists>m. b k = Some (Dir m)) | Some n \<Rightarrow> b k = Some n"
    and bc: "\<forall>k. case b k of None \<Rightarrow> c k = None \<or> (\<exists>m. c k = Some (Dir m)) | Some n \<Rightarrow> c k = Some n"
  from ab [rule_format, of k] bc [rule_format, of k]
  show "case a k of None \<Rightarrow> c k = None \<or> (\<exists>m. c k = Some (Dir m)) | Some n \<Rightarrow> c k = Some n"
    by (cases "a k"; cases "b k") auto
qed

lemma dirsAdded_Some: "dirsAdded fs fs' \<Longrightarrow> fs k = Some n \<Longrightarrow> fs' k = Some n"
  unfolding dirsAdded_def by (erule allE [of _ k]) simp

lemma dirsAdded_None:
  "dirsAdded fs fs' \<Longrightarrow> fs k = None \<Longrightarrow> fs' k = None \<or> (\<exists>m. fs' k = Some (Dir m))"
  unfolding dirsAdded_def by (erule allE [of _ k]) simp

lemma dirsAdded_links:
  assumes "dirsAdded fs fs'"
  shows "(fs' k = Some (Symlink t)) = (fs k = Some (Symlink t))"
  using dirsAdded_Some [OF assms, of k] dirsAdded_None [OF assms, of k]
  by (cases "fs k") auto

lemma dirsAdded_resolve: "dirsAdded fs fs' \<Longrightarrow> resolve fs' p = resolve fs p"
  by (rule resolve_same_links) (rule dirsAdded_links)

lemma dirsAdded_read:
  assumes "dirsAdded fs fs'"
  shows "(os_ReadFile fs' p = Inr c) = (os_ReadFile fs p = Inr c)"
proof -
  have "\<And>q. (\<exists>m. fs' q = Some (File c m)) = (\<exists>m. fs q = Some (File c m))"
    subgoal for q
      using dirsAdded_Some [OF assms, of q] dirsAdded_None [OF assms, of q]
      by (cases "fs q") auto
    done
  then show ?thesis
    unfolding os_ReadFile_Inr dirsAdded_resolve [OF assms] by simp
qed

lemma fs_Mkdir_cases:
  assumes "fs_Mkdir um p pm fs = (r, fs')"
  shows "fs' = fs \<or> (fs p = None \<and> fs' = fs(p \<mapsto> Dir (pm AND NOT um)))"
  using assms by (auto simp: fs_Mkdir_def split: option.splits node.splits)

lemma fs_Mkdir_dirsAdded:
  assumes "fs_Mkdir um p pm fs = (r, fs')"
  shows "dirsAdded fs fs'"
  using fs_Mkdir_cases [OF assms]
  by (auto simp: dirsAdded_def split: option.splits)

lemma fs_Mkdir_frame:
  assumes "fs_Mkdir um p pm fs = (r, fs')" and "k \<noteq> p"
  shows "fs' k = fs k"
  using fs_Mkdir_cases [OF assms(1)] assms(2) by auto

lemma fs_MkdirAll_dirsAdded:
  "fs_MkdirAll um p pm fs = (r, fs') \<Longrightarrow> dirsAdded fs fs'"
proof (induction um p pm fs arbitrary: r fs' rule: fs_MkdirAll.induct)
  case (1 um p pm fs)
  show ?case
  proof (cases "p = []")
    case True
    with "1.prems" show ?thesis by (simp add: fs_MkdirAll.simps dirsAdded_refl)
  next
    case ne: False
    show ?thesis
    proof (cases "os_Stat fs p")
      case (Inr info)
      with ne "1.prems" show ?thesis
        by (auto simp: fs_MkdirAll.simps [of um p] dirsAdded_refl split: if_splits)
    next
      case (Inl e)
      show ?thesis
      proof (cases "butlast p = []")
        case True
        with ne Inl "1.prems" have "fs_Mkdir um p pm fs = (r, fs')"
          by (simp add: fs_MkdirAll.simps [of um p])
        then show ?thesis by (rule fs_Mkdir_dirsAdded)
      next
        case False
        obtain r1 fs1 where par: "fs_MkdirAll um (butlast p) pm fs = (r1, fs1)"
          by (cases "fs_MkdirAll um (butlast p) pm fs") auto
        from "1.IH" [OF ne Inl False par] have d1: "dirsAdded fs fs1" .
        show ?thesis
        proof (cases r1)
          case None
          with ne Inl False par "1.prems" have "fs_Mkdir um p pm fs1 = (r, fs')"
            by (simp add: fs_MkdirAll.simps [of um p])
          then have "dirsAdded fs1 fs'" by (rule fs_Mkdir_dirsAdded)
          with d1 show ?thesis by (rule dirsAdded_trans)
        next
          case (Some e')
          with ne Inl False par "1.prems" have "fs' = fs1"
            by (simp add: fs_MkdirAll.simps [of um p])
          with d1 show ?thesis by simp
        qed
      qed
    qed
  qed
qed

lemma fs_MkdirAll_frame:
  "fs_MkdirAll um p pm fs = (r, fs') \<Longrightarrow> length p < length k \<Longrightarrow> fs' k = fs k"
proof (induction um p pm fs arbitrary: r fs' rule: fs_MkdirAll.induct)
  case (1 um p pm fs)
  show ?case
  proof (cases "p = []")
    case True
    with "1.prems" show ?thesis by (simp add: fs_MkdirAll.simps)
  next
    case ne: False
    show ?thesis
    proof (cases "os_Stat fs p")
      case (Inr info)
      with ne "1.prems" show ?thesis
        by (auto simp: fs_MkdirAll.simps [of um p] split: if_splits)
    next
      case (Inl e)
      from "1.prems"(2) have kp: "k \<noteq> p" by auto
      show ?thesis
      proof (cases "butlast p = []")
        case True
        with ne Inl "1.prems" have "fs_Mkdir um p pm fs = (r, fs')"
          by (simp add: fs_MkdirAll.simps [of um p])
        then show ?thesis using kp by (rule fs_Mkdir_frame)
      next
        case False
        obtain r1 fs1 where par: "fs_MkdirAll um (butlast p) pm fs = (r1, fs1)"
          by (cases "fs_MkdirAll um (butlast p) pm fs") auto
        from "1.prems"(2) have "length (butlast p) < length k" by simp
        from "1.IH" [OF ne Inl False par this] have d1: "fs1 k = fs k" .
        show ?thesis
        proof (cases r1)
          case None
          with ne Inl False par "1.prems" have "fs_Mkdir um p pm fs1 = (r, fs')"
            by (simp add: fs_MkdirAll.simps [of um p])
          then have "fs' k = fs1 k" using kp by (rule fs_Mkdir_frame)
          with d1 show ?thesis by simp
        next
          case (Some e')
          with ne Inl False par "1.prems" have "fs' = fs1"
            by (simp add: fs_MkdirAll.simps [of um p])
          with d1 show ?thesis by simp
        qed
      qed
    qed
  qed
qed

lemma os_MkdirAll_fs:
  "os_MkdirAll ev p pm s = (r, s') \<Longrightarrow>
     fs_MkdirAll (umask ev) p pm (files s) = (r, files s')
     \<and> calls s' = calls s @ [MkdirAllCall p pm] \<and> printed s' = printed s"
  by (auto simp: os_MkdirAll_def split: prod.splits)

lemma os_WriteFile_fs:
  "os_WriteFile ev p d pm s = (r, s') \<Longrightarrow>
     fs_WriteFile (umask ev) p d pm (files s) = (r, files s')
     \<and> calls s' = calls s @ [WriteFileCall p d pm] \<and> printed s' = printed s"
  by (auto simp: os_WriteFile_def split: prod.splits)

lemma os_Chmod_fs:
  "os_Chmod p pm s = (r, s') \<Longrightarrow>
     fs_Chmod p pm (files s) = (r, files s')
     \<and> calls s' = calls s @ [ChmodCall p pm] \<and> printed s' = printed s"
  by (auto simp: os_Chmod_def split: prod.splits)

lemma os_Symlink_fs:
  "os_Symlink t p s = (r, s') \<Longrightarrow>
     fs_Symlink t p (files s) = (r, files s')
     \<and> calls s' = calls s @ [SymlinkCall t p] \<and> printed s' = printed s"
  by (auto simp: os_Symlink_def split: prod.splits)

lemma runStrip_fs:
  "runStrip ev p s = (r, s') \<Longrightarrow>
     fs_Strip ev p (files s) = (r, files s')
     \<and> calls s' = calls s @ [StripCall p] \<and> printed s' = printed s"
  by (auto simp: runStrip_def split: prod.splits)

lemma isDynamicExecutable_snd: "snd (isDynamicExecutable ev p) = None"
  by (simp add: isDynamicExecutable_def Let_def split: option.splits)

lemma processBinary_None:
  assumes "processBinary cfg ev binaryPath s = (None, s')"
  shows "\<exists>fileInfo s1. os_Stat (files s) binaryPath = Inr fileInfo \<and> IsRegular (Mode fileInfo)
          \<and> os_MkdirAll ev (dstDirPath cfg) perm0755 s = (None, s1)
          \<and> (if fst (isDynamicExecutable ev binaryPath)
              then processDynamic cfg ev binaryPath fileInfo s1
              else processStatic cfg ev binaryPath fileInfo s1) = (None, s')"
proof -
  obtain b where b: "isDynamicExecutable ev binaryPath = (b, None)"
    using isDynamicExecutable_snd [of ev binaryPath]
    by (cases "isDynamicExecutable ev binaryPath") auto
  from assms obtain fileInfo where st: "os_Stat (files s) binaryPath = Inr fileInfo"
    by (auto simp: processBinary_def split: sum.splits)
  from assms st have reg: "IsRegular (Mode fileInfo)"
    by (auto simp: processBinary_def split: if_splits)
  from assms st reg b
  have "andThen (os_MkdirAll ev (dstDirPath cfg) perm0755 s)
          (\<lambda>s. if \<not> b then processStatic cfg ev binaryPath fileInfo s
                else processDynamic cfg ev binaryPath fileInfo s) = (None, s')"
    by (simp add: processBinary_def)
  from andThen_None [OF this] st reg b show ?thesis by auto
qed

lemma os_Stat_Name: "os_Stat fs p = Inr info \<Longrightarrow> Name info = last p"
  by (auto simp: os_Stat_def split: sum.splits option.splits node.splits)

lemma tryStrip_off: "\<not> strip cfg \<Longrightarrow> tryStrip cfg ev p s = (None, s)"
  by (simp add: tryStrip_def)

lemma mainLoop_append:
  "mainLoop cfg ev (xs @ ys) s = mainLoop cfg ev ys (mainLoop cfg ev xs s)"
  by (induction xs arbitrary: s) (auto split: prod.splits option.splits)

lemma mainLoop_error:
  "processBinary cfg ev b s = (Some e, s1) \<Longrightarrow>
     mainLoop cfg ev (b # rest) s = mainLoop cfg ev rest (emit (ErrorProcessing b e) s1)"
  by simp

lemma processDynamic_no_launcher:
  "lookPath ev ''sharun'' = None \<Longrightarrow>
     processDynamic cfg ev b info s = (Some SharunNotFound, s)"
  by (simp add: processDynamic_def findDynExec_def)

lemma processDynamic_None:
  assumes "processDynamic cfg ev binaryPath fileInfo s1 = (None, s')"
  shows "\<exists>dp s2 s3 s4 s5 s6 s7 s8 s9 libs s10.
      findDynExec ev = Inr dp
    \<and> copyFile ev dp (Join (dstDirPath cfg) ''sharun'') s1 = (None, s2)
    \<and> os_Chmod (Join (dstDirPath cfg) ''sharun'') perm0755 s2 = (None, s3)
    \<and> os_MkdirAll ev (Join (dstDirPath cfg) defaultBinDir) perm0755 s3 = (None, s4)
    \<and> (if createLinks cfg
        then createSymlink [''..'', ''sharun'']
               (Join (Join (dstDirPath cfg) defaultBinDir) (Name fileInfo)) s4
        else (None, s4)) = (None, s5)
    \<and> os_MkdirAll ev (Join (Join (dstDirPath cfg) defaultSharedDir) defaultBinDir) perm0755 s5
        = (None, s6)
    \<and> os_MkdirAll ev (Join (Join (dstDirPath cfg) defaultSharedDir) defaultLibDir) perm0755 s6
        = (None, s7)
    \<and> copyFile ev binaryPath
          (Join (Join (Join (dstDirPath cfg) defaultSharedDir) defaultBinDir) (Name fileInfo)) s7
        = (None, s8)
    \<and> tryStrip cfg ev
          (Join (Join (Join (dstDirPath cfg) defaultSharedDir) defaultBinDir) (Name fileInfo)) s8
        = (None, s9)
    \<and> getLibs ev binaryPath = Inr libs
    \<and> copyLibs cfg ev (Join (Join (dstDirPath cfg) defaultSharedDir) defaultLibDir) libs s9
        = (None, s10)
    \<and> s' = emit (ProcessedDynamic (Name fileInfo)) s10"
  using assms unfolding processDynamic_def Let_def
  apply (cases "findDynExec ev")
   apply simp
  apply (simp only: sum.case)
  apply (drule andThen_None, elim exE conjE)+
  apply (cases "getLibs ev binaryPath")
   apply simp
  apply (simp only: sum.case)
  apply (drule andThen_None, elim exE conjE)
  apply (simp only: prod.inject)
  apply (elim conjE)
  apply (drule sym [of "emit _ _"])
  apply blast
  done

lemma writesTo_snoc:
  "writesTo p (cs @ [c]) = writesTo p cs + (if isWriteTo p c then 1 else 0)"
  by (simp add: writesTo_def)

lemma copyFile_calls:
  assumes "copyFile ev src dst s = (r, s')"
  shows "calls s' = calls s \<or> (\<exists>c. calls s' = calls s @ [WriteFileCall dst c perm0644])"
  using assms by (auto simp: copyFile_def dest: os_WriteFile_fs split: sum.splits)

lemma copyFile_calls_None:
  assumes "copyFile ev src dst s = (None, s')"
  shows "\<exists>c. calls s' = calls s @ [WriteFileCall dst c perm0644]"
  using assms by (auto simp: copyFile_def dest: os_WriteFile_fs split: sum.splits)

lemma copyFile_writesTo:
  assumes "copyFile ev src dst s = (r, s')" and "dst \<noteq> p"
  shows "writesTo p (calls s') = writesTo p (calls s)"
  using copyFile_calls [OF assms(1)] assms(2) by (auto simp: writesTo_snoc)

lemma tryStrip_writesTo:
  assumes "tryStrip cfg ev q s = (r, s')"
  shows "writesTo p (calls s') = writesTo p (calls s)"
  using assms
  by (auto simp: tryStrip_def writesTo_snoc dest!: runStrip_fs split: if_splits option.splits)

lemma os_MkdirAll_writesTo:
  "os_MkdirAll ev q pm s = (r, s') \<Longrightarrow> writesTo p (calls s') = writesTo p (calls s)"
  by (auto simp: writesTo_snoc dest!: os_MkdirAll_fs)

lemma os_Chmod_writesTo:
  "os_Chmod q pm s = (r, s') \<Longrightarrow> writesTo p (calls s') = writesTo p (calls s)"
  by (auto simp: writesTo_snoc dest!: os_Chmod_fs)

lemma createSymlink_writesTo:
  "createSymlink t q s = (r, s') \<Longrightarrow> writesTo p (calls s') = writesTo p (calls s)"
  by (auto simp: writesTo_snoc createSymlink_def dest!: os_Symlink_fs)

lemma copyLibs_writesTo:
  assumes "\<And>b. Join d b \<noteq> p"
  shows "copyLibs cfg ev d libs s = (r, s') \<Longrightarrow> writesTo p (calls s') = writesTo p (calls s)"
proof (induction libs arbitrary: s)
  case Nil
  then show ?case by simp
next
  case (Cons l libs)
  obtain r1 s1 where c: "copyFile ev l (Join d (Base l)) s = (r1, s1)"
    by (cases "copyFile ev l (Join d (Base l)) s") auto
  have w1: "writesTo p (calls s1) = writesTo p (calls s)"
    using c assms by (rule copyFile_writesTo)
  show ?case
  proof (cases r1)
    case (Some e)
    with Cons.prems c w1 show ?thesis by (simp add: Let_def)
  next
    case None
    obtain r2 s2 where t: "tryStrip cfg ev (Join d (Base l)) s1 = (r2, s2)"
      by (cases "tryStrip cfg ev (Join d (Base l)) s1") auto
    have w2: "writesTo p (calls s2) = writesTo p (calls s1)"
      using t by (rule tryStrip_writesTo)
    show ?thesis
    proof (cases r2)
      case (Some e)
      with Cons.prems c None t w1 w2 show ?thesis by (simp add: Let_def)
    next
      case n2: None
      with Cons.prems c None t have "copyLibs cfg ev d libs s2 = (r, s')"
        by (simp add: Let_def)
      from Cons.IH [OF this] w1 w2 show ?thesis by simp
    qed
  qed
qed

lemma processBinary_invalid:
  assumes "\<And>info. os_Stat (files s) binary = Inr info \<Longrightarrow> \<not> IsRegular (Mode info)"
  shows "\<exists>e. processBinary cfg ev binary s = (Some e, s)"
proof (cases "os_Stat (files s) binary")
  case (Inl e)
  then show ?thesis by (simp add: processBinary_def)
next
  case (Inr info)
  with assms [OF Inr] show ?thesis by (simp add: processBinary_def)
qed

lemma follow_self: "(\<And>t. fs p \<noteq> Some (Symlink t)) \<Longrightarrow> follow fs n p = Inr p"
  by (cases n) (auto split: option.splits node.splits)

lemma resolve_self:
  "p \<noteq> [] \<Longrightarrow> (\<And>t. fs p \<noteq> Some (Symlink t)) \<Longrightarrow> resolve fs p = Inr p"
  by (simp add: resolve_def follow_self)

lemma fs_WriteFile_eff:
  assumes "fs_WriteFile um p c pm fs = (r, fs')"
  shows "fs' = fs \<or>
    (\<exists>q m. resolve fs p = Inr q \<and> (\<forall>t. fs q \<noteq> Some (Symlink t)) \<and> fs' = fs(q \<mapsto> File c m)
       \<and> (case fs q of Some (File c0 m0) \<Rightarrow> m = m0 | _ \<Rightarrow> fs q = None \<and> m = pm AND NOT um))"
proof (cases r)
  case None
  with assms fs_WriteFile_None [of um p c pm fs fs'] show ?thesis by blast
next
  case (Some e)
  with assms have "fs' = fs"
    by (auto simp: fs_WriteFile_def split: sum.splits option.splits node.splits)
  then show ?thesis by simp
qed

lemma fs_Chmod_eff:
  assumes "fs_Chmod p pm fs = (r, fs')"
  shows "fs' = fs \<or>
    (\<exists>q. resolve fs p = Inr q \<and> (\<forall>t. fs q \<noteq> Some (Symlink t))
       \<and> ((\<exists>c m. fs q = Some (File c m) \<and> fs' = fs(q \<mapsto> File c pm))
          \<or> (\<exists>m. fs q = Some (Dir m) \<and> fs' = fs(q \<mapsto> Dir pm))))"
proof (cases r)
  case None
  with assms fs_Chmod_None [of p pm fs fs'] show ?thesis by blast
next
  case (Some e)
  with assms have "fs' = fs"
    by (auto simp: fs_Chmod_def split: sum.splits option.splits node.splits)
  then show ?thesis by simp
qed

lemma fs_Symlink_eff:
  assumes "fs_Symlink t p fs = (r, fs')"
  shows "fs' = fs \<or> (r = None \<and> fs p = None \<and> fs' = fs(p \<mapsto> Symlink t))"
  using assms by (auto simp: fs_Symlink_def split: if_splits option.splits)

lemma fs_Symlink_exists:
  assumes "fs p \<noteq> None"
  shows "\<exists>e. fs_Symlink t p fs = (Some e, fs)"
  using assms by (auto simp: fs_Symlink_def)

lemma fs_Strip_eff:
  assumes "fs_Strip ev p fs = (r, fs')"
  shows "fs' = fs \<or>
    (\<exists>q c m c'. resolve fs p = Inr q \<and> fs q = Some (File c m) \<and> fs' = fs(q \<mapsto> File c' m))"
  using assms
  by (auto simp: fs_Strip_def split: sum.splits option.splits node.splits)

lemma copyFile_eff:
  assumes "copyFile ev src dst s = (r, s')"
  shows "files s' = files s \<or>
    (\<exists>q c m. resolve (files s) dst = Inr q \<and> (\<forall>t. files s q \<noteq> Some (Symlink t))
       \<and> files s' = (files s)(q \<mapsto> File c m)
       \<and> (case files s q of Some (File c0 m0) \<Rightarrow> m = m0
           | _ \<Rightarrow> files s q = None \<and> m = perm0644 AND NOT (umask ev)))"
proof (cases "os_ReadFile (files s) src")
  case (Inl e)
  with assms show ?thesis by (simp add: copyFile_def)
next
  case (Inr c)
  with assms have "os_WriteFile ev dst c perm0644 s = (r, s')" by (simp add: copyFile_def)
  from os_WriteFile_fs [OF this]
  have "fs_WriteFile (umask ev) dst c perm0644 (files s) = (r, files s')" by simp
  from fs_WriteFile_eff [OF this] show ?thesis by blast
qed

lemma copyFile_frame:
  assumes "copyFile ev src dst s = (r, s')"
    and "dst \<noteq> []" and "\<And>t. files s dst \<noteq> Some (Symlink t)" and "k \<noteq> dst"
  shows "files s' k = files s k"
  using copyFile_eff [OF assms(1)] resolve_self [of dst "files s", OF assms(2,3)] assms(4)
  by auto

lemma os_Chmod_frame:
  assumes "os_Chmod p pm s = (r, s')"
    and "p \<noteq> []" and "\<And>t. files s p \<noteq> Some (Symlink t)" and "k \<noteq> p"
  shows "files s' k = files s k"
proof -
  from os_Chmod_fs [OF assms(1)] have "fs_Chmod p pm (files s) = (r, files s')" by simp
  from fs_Chmod_eff [OF this] resolve_self [of p "files s", OF assms(2,3)] assms(4)
  show ?thesis by auto
qed

lemma os_MkdirAll_dirsAdded:
  "os_MkdirAll ev p pm s = (r, s') \<Longrightarrow> dirsAdded (files s) (files s')"
  using os_MkdirAll_fs fs_MkdirAll_dirsAdded by blast

lemma os_MkdirAll_frame:
  "os_MkdirAll ev p pm s = (r, s') \<Longrightarrow> length p < length k \<Longrightarrow> files s' k = files s k"
  using os_MkdirAll_fs fs_MkdirAll_frame by blast

lemma createSymlink_exists:
  assumes "files s p \<noteq> None"
  shows "\<exists>e. createSymlink t p s = (Some e, s\<lparr>calls := calls s @ [SymlinkCall t p]\<rparr>)"
  using fs_Symlink_exists [of "files s" p t] assms
  by (auto simp: createSymlink_def os_Symlink_def)

lemma createSymlink_frame:
  assumes "createSymlink t p s = (r, s')" and "k \<noteq> p"
  shows "files s' k = files s k"
proof -
  from assms(1) have "fs_Symlink t p (files s) = (r, files s')"
    by (auto simp: createSymlink_def dest: os_Symlink_fs)
  from fs_Symlink_eff [OF this] assms(2) show ?thesis by auto
qed

lemma copyFile_keeps_links:
  assumes "copyFile ev src dst s = (r, s')"
  shows "(files s' k = Some (Symlink t)) = (files s k = Some (Symlink t))"
  using copyFile_eff [OF assms] by (auto split: if_splits)

lemma processDynamic_link_exists:
  assumes cl: "createLinks cfg"
    and ex: "files s1 (Join (Join (dstDirPath cfg) defaultBinDir) (Name fileInfo)) = Some n"
    and nl: "\<And>t. files s1 (Join (dstDirPath cfg) ''sharun'') \<noteq> Some (Symlink t)"
  shows "fst (processDynamic cfg ev binaryPath fileInfo s1) \<noteq> None
       \<and> files (snd (processDynamic cfg ev binaryPath fileInfo s1))
           (Join (Join (dstDirPath cfg) defaultBinDir) (Name fileInfo)) = Some n"
proof (cases "findDynExec ev")
  case (Inl e)
  with ex show ?thesis by (simp add: processDynamic_def)
next
  case (Inr dp)
  let ?K = "Join (Join (dstDirPath cfg) defaultBinDir) (Name fileInfo)"
  let ?L = "Join (dstDirPath cfg) ''sharun''"
  have KL: "?K \<noteq> ?L" and L: "?L \<noteq> []" by (simp_all add: Join_def)
  obtain r2 s2 where s2: "copyFile ev dp ?L s1 = (r2, s2)"
    by (cases "copyFile ev dp ?L s1") auto
  obtain r3 s3 where s3: "os_Chmod ?L perm0755 s2 = (r3, s3)"
    by (cases "os_Chmod ?L perm0755 s2") auto
  obtain r4 s4 where s4: "os_MkdirAll ev (Join (dstDirPath cfg) defaultBinDir) perm0755 s3 = (r4, s4)"
    by (cases "os_MkdirAll ev (Join (dstDirPath cfg) defaultBinDir) perm0755 s3") auto
  have f2: "files s2 ?K = Some n"
    using copyFile_frame [OF s2 L nl KL] ex by simp
  have l2: "\<And>t. files s2 ?L \<noteq> Some (Symlink t)"
    using nl by (simp add: copyFile_keeps_links [OF s2])
  have f3: "files s3 ?K = Some n"
    using os_Chmod_frame [OF s3 L l2 KL] f2 by simp
  have f4: "files s4 ?K = Some n"
    using os_MkdirAll_dirsAdded [OF s4] f3 by (rule dirsAdded_Some)
  then have "files s4 ?K \<noteq> None" by simp
  from createSymlink_exists [OF this, of "[''..'', ''sharun'']"]
  obtain e5 where s5: "createSymlink [''..'', ''sharun''] ?K s4
      = (Some e5, s4\<lparr>calls := calls s4 @ [SymlinkCall [''..'', ''sharun''] ?K]\<rparr>)"
    by blast
  show ?thesis
    by (cases r2; cases r3; cases r4)
       (simp_all add: processDynamic_def Let_def Inr s2 s3 s4 s5 cl f2 f3 f4)
qed

lemma copyFile_None:
  assumes "copyFile ev src dst s = (None, s')"
  shows "\<exists>q c m. resolve (files s) dst = Inr q \<and> (\<forall>t. files s q \<noteq> Some (Symlink t))
       \<and> files s' = (files s)(q \<mapsto> File c m)
       \<and> (case files s q of Some (File c0 m0) \<Rightarrow> m = m0
           | _ \<Rightarrow> files s q = None \<and> m = perm0644 AND NOT (umask ev))"
proof -
  from assms obtain c where "os_WriteFile ev dst c perm0644 s = (None, s')"
    by (auto simp: copyFile_def split: sum.splits)
  from os_WriteFile_fs [OF this]
  have "fs_WriteFile (umask ev) dst c perm0644 (files s) = (None, files s')" by simp
  from fs_WriteFile_None [OF this] show ?thesis by blast
qed

lemma copyFile_keeps_perm:
  assumes "copyFile ev src dst s = (r, s')" and "files s k = Some (File c m)"
  shows "\<exists>c'. files s' k = Some (File c' m)"
  using copyFile_eff [OF assms(1)] assms(2) by (auto split: if_splits)

lemma tryStrip_keeps_perm:
  assumes "tryStrip cfg ev p s = (r, s')" and "files s k = Some (File c m)"
  shows "\<exists>c'. files s' k = Some (File c' m)"
proof (cases "strip cfg \<and> lookPath ev ''strip'' \<noteq> None")
  case False
  with assms show ?thesis by (auto simp: tryStrip_def split: if_splits option.splits)
next
  case True
  with assms(1) have "runStrip ev p s = (r, s')" by (auto simp: tryStrip_def)
  from runStrip_fs [OF this] have "fs_Strip ev p (files s) = (r, files s')" by simp
  from fs_Strip_eff [OF this] assms(2) show ?thesis by (auto split: if_splits)
qed

lemma copyLibs_keeps_perm:
  "copyLibs cfg ev d libs s = (r, s') \<Longrightarrow> files s k = Some (File c m) \<Longrightarrow>
     \<exists>c'. files s' k = Some (File c' m)"
proof (induction libs arbitrary: s c)
  case Nil
  then show ?case by simp
next
  case (Cons l libs)
  obtain r1 s1 where c1: "copyFile ev l (Join d (Base l)) s = (r1, s1)"
    by (cases "copyFile ev l (Join d (Base l)) s") auto
  obtain r2 s2 where t2: "tryStrip cfg ev (Join d (Base l)) s1 = (r2, s2)"
    by (cases "tryStrip cfg ev (Join d (Base l)) s1") auto
  from copyFile_keeps_perm [OF c1 Cons.prems(2)] obtain c1' where
    k1: "files s1 k = Some (File c1' m)" by blast
  from tryStrip_keeps_perm [OF t2 k1] obtain c2' where
    k2: "files s2 k = Some (File c2' m)" by blast
  show ?case
  proof (cases r1)
    case (Some e)
    with Cons.prems(1) c1 k1 show ?thesis by (simp add: Let_def)
  next
    case None
    show ?thesis
    proof (cases r2)
      case (Some e)
      with Cons.prems(1) c1 None t2 k2 show ?thesis by (simp add: Let_def)
    next
      case n2: None
      with Cons.prems(1) c1 None t2 have "copyLibs cfg ev d libs s2 = (r, s')"
        by (simp add: Let_def)
      from Cons.IH [OF this k2] show ?thesis .
    qed
  qed
qed

lemma chmodsOf_snoc:
  "chmodsOf p (cs @ [c]) = chmodsOf p cs + (if isChmodOf p c then 1 else 0)"
  by (simp add: chmodsOf_def)

lemma copyFile_chmodsOf:
  assumes "copyFile ev src dst s = (r, s')"
  shows "chmodsOf p (calls s') = chmodsOf p (calls s)"
  using copyFile_calls [OF assms] by (auto simp: chmodsOf_snoc)

lemma tryStrip_chmodsOf:
  assumes "tryStrip cfg ev q s = (r, s')"
  shows "chmodsOf p (calls s') = chmodsOf p (calls s)"
  using assms
  by (auto simp: tryStrip_def chmodsOf_snoc dest!: runStrip_fs split: if_splits option.splits)

lemma os_MkdirAll_chmodsOf:
  "os_MkdirAll ev q pm s = (r, s') \<Longrightarrow> chmodsOf p (calls s') = chmodsOf p (calls s)"
  by (auto simp: chmodsOf_snoc dest!: os_MkdirAll_fs)

lemma os_Chmod_chmodsOf:
  "os_Chmod q pm s = (r, s') \<Longrightarrow> q \<noteq> p \<Longrightarrow> chmodsOf p (calls s') = chmodsOf p (calls s)"
  by (auto simp: chmodsOf_snoc dest!: os_Chmod_fs)

lemma createSymlink_chmodsOf:
  "createSymlink t q s = (r, s') \<Longrightarrow> chmodsOf p (calls s') = chmodsOf p (calls s)"
  by (auto simp: chmodsOf_snoc createSymlink_def dest!: os_Symlink_fs)

lemma copyLibs_chmodsOf:
  "copyLibs cfg ev d libs s = (r, s') \<Longrightarrow> chmodsOf p (calls s') = chmodsOf p (calls s)"
proof (induction libs arbitrary: s)
  case Nil
  then show ?case by simp
next
  case (Cons l libs)
  obtain r1 s1 where c: "copyFile ev l (Join d (Base l)) s = (r1, s1)"
    by (cases "copyFile ev l (Join d (Base l)) s") auto
  have w1: "chmodsOf p (calls s1) = chmodsOf p (calls s)"
    using c by (rule copyFile_chmodsOf)
  show ?case
  proof (cases r1)
    case (Some e)
    with Cons.prems c w1 show ?thesis by (simp add: Let_def)
  next
    case None
    obtain r2 s2 where t: "tryStrip cfg ev (Join d (Base l)) s1 = (r2, s2)"
      by (cases "tryStrip cfg ev (Join d (Base l)) s1") auto
    have w2: "chmodsOf p (calls s2) = chmodsOf p (calls s1)"
      using t by (rule tryStrip_chmodsOf)
    show ?thesis
    proof (cases r2)
      case (Some e)
      with Cons.prems c None t w1 w2 show ?thesis by (simp add: Let_def)
    next
      case n2: None
      with Cons.prems c None t have "copyLibs cfg ev d libs s2 = (r, s')"
        by (simp add: Let_def)
      from Cons.IH [OF this] w1 w2 show ?thesis by simp
    qed
  qed
qed

lemma no_exec_bits: "(perm0644 AND NOT u) AND perm0111 = 0"
  by (simp add: perm0644_def perm0111_def and.assoc and.left_commute and.commute)

lemma andThen_assoc:
  "andThen (andThen r f) g = andThen r (\<lambda>s. andThen (f s) g)"
  by (cases r, rename_tac a b, case_tac a) auto

lemma copyLibs_append:
  "copyLibs cfg ev d (xs @ ys) s = andThen (copyLibs cfg ev d xs s) (copyLibs cfg ev d ys)"
proof (induction xs arbitrary: s)
  case Nil
  show ?case by simp
next
  case (Cons x xs)
  have "copyLibs cfg ev d (xs @ ys)
      = (\<lambda>s. andThen (copyLibs cfg ev d xs s) (copyLibs cfg ev d ys))"
    by (rule ext) (rule Cons.IH)
  then show ?case by (simp add: Let_def andThen_assoc)
qed

lemma tryStrip_keeps_links:
  assumes "tryStrip cfg ev p s = (r, s')"
  shows "(files s' k = Some (Symlink t)) = (files s k = Some (Symlink t))"
proof (cases "strip cfg \<and> lookPath ev ''strip'' \<noteq> None")
  case False
  with assms show ?thesis by (auto simp: tryStrip_def split: if_splits option.splits)
next
  case True
  with assms(1) have "runStrip ev p s = (r, s')" by (auto simp: tryStrip_def)
  from runStrip_fs [OF this] have "fs_Strip ev p (files s) = (r, files s')" by simp
  from fs_Strip_eff [OF this] show ?thesis by (auto split: if_splits)
qed

lemma copyLibs_keeps_links:
  "copyLibs cfg ev d libs s = (r, s') \<Longrightarrow>
     (files s' k = Some (Symlink t)) = (files s k = Some (Symlink t))"
proof (induction libs arbitrary: s)
  case Nil
  then show ?case by simp
next
  case (Cons l libs)
  obtain r1 s1 where c1: "copyFile ev l (Join d (Base l)) s = (r1, s1)"
    by (cases "copyFile ev l (Join d (Base l)) s") auto
  obtain r2 s2 where t2: "tryStrip cfg ev (Join d (Base l)) s1 = (r2, s2)"
    by (cases "tryStrip cfg ev (Join d (Base l)) s1") auto
  note k1 = copyFile_keeps_links [OF c1, of k t]
  note k2 = tryStrip_keeps_links [OF t2, of k t]
  show ?case
  proof (cases r1)
    case (Some e)
    with Cons.prems c1 k1 show ?thesis by (simp add: Let_def)
  next
    case None
    show ?thesis
    proof (cases r2)
      case (Some e)
      with Cons.prems c1 None t2 k1 k2 show ?thesis by (simp add: Let_def)
    next
      case n2: None
      with Cons.prems(1) c1 None t2 have "copyLibs cfg ev d libs s2 = (r, s')"
        by (simp add: Let_def)
      from Cons.IH [OF this] k1 k2 show ?thesis by simp
    qed
  qed
qed

lemma copyLibs_frame:
  assumes ns: "\<not> strip cfg"
  shows "copyLibs cfg ev d libs s = (r, s') \<Longrightarrow>
     \<forall>l'\<in>set libs. \<forall>t. files s (Join d (Base l')) \<noteq> Some (Symlink t) \<Longrightarrow>
     \<forall>l'\<in>set libs. k \<noteq> Join d (Base l') \<Longrightarrow>
     files s' k = files s k"
proof (induction libs arbitrary: s)
  case Nil
  then show ?case by simp
next
  case (Cons l libs)
  obtain r1 s1 where c1: "copyFile ev l (Join d (Base l)) s = (r1, s1)"
    by (cases "copyFile ev l (Join d (Base l)) s") auto
  have ne: "Join d (Base l) \<noteq> []" by (simp add: Join_def)
  have nl: "\<And>t. files s (Join d (Base l)) \<noteq> Some (Symlink t)"
    using Cons.prems(2) by simp
  have kl: "k \<noteq> Join d (Base l)" using Cons.prems(3) by simp
  have f1: "files s1 k = files s k" using c1 ne nl kl by (rule copyFile_frame)
  show ?case
  proof (cases r1)
    case (Some e)
    with Cons.prems(1) c1 f1 show ?thesis by (simp add: Let_def)
  next
    case None
    with Cons.prems(1) c1 have rest: "copyLibs cfg ev d libs s1 = (r, s')"
      by (simp add: Let_def tryStrip_off [OF ns])
    have "\<forall>l'\<in>set libs. \<forall>t. files s1 (Join d (Base l')) \<noteq> Some (Symlink t)"
      using Cons.prems(2) by (simp add: copyFile_keeps_links [OF c1])
    moreover have "\<forall>l'\<in>set libs. k \<noteq> Join d (Base l')" using Cons.prems(3) by simp
    ultimately have "files s' k = files s1 k" by (rule Cons.IH [OF rest])
    with f1 show ?thesis by simp
  qed
qed

lemma os_Chmod_keeps_links:
  assumes "os_Chmod p pm s = (r, s')"
  shows "(files s' k = Some (Symlink t)) = (files s k = Some (Symlink t))"
proof -
  from os_Chmod_fs [OF assms] have "fs_Chmod p pm (files s) = (r, files s')" by simp
  from fs_Chmod_eff [OF this] show ?thesis by (auto split: if_splits)
qed

lemma os_Chmod_keeps_file:
  assumes "os_Chmod p pm s = (r, s')" and "files s k = Some (File c m)"
  shows "\<exists>m'. files s' k = Some (File c m')"
proof -
  from os_Chmod_fs [OF assms(1)] have "fs_Chmod p pm (files s) = (r, files s')" by simp
  from fs_Chmod_eff [OF this] assms(2) show ?thesis by (auto split: if_splits)
qed

lemma follow_upd_other:
  "follow fs n p = Inr q \<Longrightarrow> fs k = None \<Longrightarrow> q \<noteq> k \<Longrightarrow> follow (fs(k \<mapsto> x)) n p = Inr q"
proof (induction n arbitrary: p)
  case 0
  then show ?case by (cases "p = k") (auto split: option.splits node.splits)
next
  case (Suc n)
  show ?case
  proof (cases "\<exists>t. fs p = Some (Symlink t)")
    case True
    then obtain t where t: "fs p = Some (Symlink t)" by blast
    with Suc.prems have pk: "p \<noteq> k" by auto
    from Suc.prems(1) t have "follow fs n (linkTarget p t) = Inr q" by simp
    from Suc.IH [OF this Suc.prems(2,3)] t pk show ?thesis by simp
  next
    case False
    with Suc.prems(1) have pq: "p = q" by (auto split: option.splits node.splits)
    with Suc.prems(3) have "(fs(k \<mapsto> x)) p = fs p" by simp
    with False pq show ?thesis by (auto split: option.splits node.splits)
  qed
qed

lemma createSymlink_resolve:
  assumes "createSymlink t p s = (r, s')"
    and "resolve (files s) x = Inr q" and "files s q \<noteq> None"
  shows "resolve (files s') x = Inr q"
proof -
  from assms(1) have "fs_Symlink t p (files s) = (r, files s')"
    by (auto simp: createSymlink_def dest: os_Symlink_fs)
  from fs_Symlink_eff [OF this] show ?thesis
  proof
    assume "files s' = files s"
    with assms(2) show ?thesis by simp
  next
    assume a: "r = None \<and> files s p = None \<and> files s' = (files s)(p \<mapsto> Symlink t)"
    with assms(3) have qp: "q \<noteq> p" by auto
    from assms(2) have "x \<noteq> []" and "follow (files s) 40 x = Inr q" and "q \<noteq> []"
      by (auto simp: resolve_def split: if_splits sum.splits)
    with follow_upd_other [of "files s" 40 x q p "Symlink t"] a qp
    show ?thesis by (simp add: resolve_def)
  qed
qed

lemma os_ReadFile_eq:
  assumes "resolve fs' x = resolve fs x"
    and "\<And>q. resolve fs x = Inr q \<Longrightarrow> fs' q = fs q"
  shows "os_ReadFile fs' x = os_ReadFile fs x"
  using assms by (auto simp: os_ReadFile_def split: sum.splits)

lemma createSymlink_keeps:
  assumes "createSymlink t p s = (r, s')" and "files s k = Some n"
  shows "files s' k = Some n"
proof -
  from assms(1) have "fs_Symlink t p (files s) = (r, files s')"
    by (auto simp: createSymlink_def dest: os_Symlink_fs)
  from fs_Symlink_eff [OF this] assms(2) show ?thesis by auto
qed

lemma static_copy_post:
  assumes ns: "\<not> strip cfg"
    and st: "\<not> fst (isDynamicExecutable ev binaryPath)"
    and ok: "processBinary cfg ev binaryPath s = (None, s')"
  shows "\<exists>c. os_ReadFile (files s) binaryPath = Inr c
           \<and> os_ReadFile (files s') (Join (Join (dstDirPath cfg) defaultBinDir) (last binaryPath)) = Inr c
           \<and> os_Stat (files s') (Join (Join (dstDirPath cfg) defaultBinDir) (last binaryPath))
               = Inr \<lparr>Name = last binaryPath, Mode = ModeRegular perm0755\<rparr>"
proof -
  let ?dst = "Join (Join (dstDirPath cfg) defaultBinDir) (last binaryPath)"
  from processBinary_None [OF ok] st obtain fileInfo s1
    where stat: "os_Stat (files s) binaryPath = Inr fileInfo"
      and reg: "IsRegular (Mode fileInfo)"
      and m1: "os_MkdirAll ev (dstDirPath cfg) perm0755 s = (None, s1)"
      and ps: "processStatic cfg ev binaryPath fileInfo s1 = (None, s')"
    by auto
  have nm: "Name fileInfo = last binaryPath" using stat by (rule os_Stat_Name)
  from stat reg obtain c where c: "os_ReadFile (files s) binaryPath = Inr c"
    using os_Stat_regular [of "files s" binaryPath] by blast
  from ps obtain s2 where m2: "os_MkdirAll ev (Join (dstDirPath cfg) defaultBinDir) perm0755 s1 = (None, s2)"
    and r2: "andThen (copyFile ev binaryPath ?dst s2) (\<lambda>s.
            andThen (tryStrip cfg ev ?dst s) (\<lambda>s.
            andThen (os_Chmod ?dst perm0755 s) (\<lambda>s.
            (None, emit (ProcessedStatic (Name fileInfo)) s)))) = (None, s')"
    unfolding processStatic_def Let_def nm by (blast dest: andThen_None)
  from andThen_None [OF r2] obtain s3 where cp: "copyFile ev binaryPath ?dst s2 = (None, s3)"
    and r3: "andThen (tryStrip cfg ev ?dst s3) (\<lambda>s.
            andThen (os_Chmod ?dst perm0755 s) (\<lambda>s.
            (None, emit (ProcessedStatic (Name fileInfo)) s))) = (None, s')"
    by blast
  from r3 ns obtain s4 where ch: "os_Chmod ?dst perm0755 s3 = (None, s4)"
    and s': "s' = emit (ProcessedStatic (Name fileInfo)) s4"
    by (auto simp: tryStrip_off dest: andThen_None)
  have d1: "dirsAdded (files s) (files s1)"
    using os_MkdirAll_fs [OF m1] by (blast intro: fs_MkdirAll_dirsAdded)
  have d2: "dirsAdded (files s1) (files s2)"
    using os_MkdirAll_fs [OF m2] by (blast intro: fs_MkdirAll_dirsAdded)
  have c2: "os_ReadFile (files s2) binaryPath = Inr c"
    using c by (simp add: dirsAdded_read [OF d2] dirsAdded_read [OF d1])
  from copyFile_post [OF cp] c2 have c3: "os_ReadFile (files s3) ?dst = Inr c" by auto
  have fc: "fs_Chmod ?dst perm0755 (files s3) = (None, files s4)"
    using os_Chmod_fs [OF ch] by simp
  have c4: "os_ReadFile (files s4) ?dst = Inr c"
    using c3 by (simp add: fs_Chmod_read [OF fc])
  have st4: "os_Stat (files s4) ?dst = Inr \<lparr>Name = last ?dst, Mode = ModeRegular perm0755\<rparr>"
    using fc c3 by (rule fs_Chmod_stat)
  have "files s' = files s4" by (simp add: s' emit_def)
  with c c4 st4 show ?thesis by (simp add: Join_def)
qed

section \<open>The claims of the specification\<close>

subsection \<open>C1: two libraries of one base name\<close>

text \<open>
  Claim C1 says that of two libraries with one base name the one copied first stays and
  the later one is skipped. It fails on the batch \<^verbatim>\<open>c d\<close>: \<^verbatim>\<open>c\<close> brings
  \<^verbatim>\<open>liba/libc.so.6\<close>, \<^verbatim>\<open>d\<close> brings \<^verbatim>\<open>libb/libc.so.6\<close>; after \<^verbatim>\<open>c\<close> the file
  \<^verbatim>\<open>shared/lib/libc.so.6\<close> holds the bytes of the first, after the batch those of the
  second.
\<close>

theorem library_dedup_counterexample:
  "printed (snd (main defaultConfig exEnv [[''c''], [''d'']] exWorld))
       = [ProcessedDynamic ''c'', ProcessedDynamic ''d'']
   \<and> getLibs exEnv [''c''] = Inr [[''liba'', ''libc.so.6''], [''liba'', ''ld.so'']]
   \<and> getLibs exEnv [''d''] = Inr [[''libb'', ''libc.so.6'']]
   \<and> os_ReadFile (files exWorld) [''liba'', ''libc.so.6''] = Inr ''libc-A''
   \<and> os_ReadFile (files exWorld) [''libb'', ''libc.so.6''] = Inr ''libc-B''
   \<and> os_ReadFile (files (mainLoop defaultConfig exEnv [[''c'']] exWorld))
        [''output'', ''shared'', ''lib'', ''libc.so.6''] = Inr ''libc-A''
   \<and> os_ReadFile (files (snd (main defaultConfig exEnv [[''c''], [''d'']] exWorld)))
        [''output'', ''shared'', ''lib'', ''libc.so.6''] = Inr ''libc-B''"
  by code_simp

text \<open>
  Claim C1, amended. A library is copied to \<^verbatim>\<open>shared/lib/\<close> under its base name whatever is
  there already: there is no check for an existing file. So when two processed dynamic
  binaries each resolve a library of the same base name from different source paths, the
  one file of that name in \<^verbatim>\<open>shared/lib/\<close> holds afterwards the bytes of the library
  copied last, and the earlier copy is overwritten. Stated for one binary processed with
  stripping disabled in any world, in particular one where an earlier binary left a file
  of that name: for a library \<open>l\<close> of the binary that is a regular file, with no library
  of the same base name after it in the list, the file \<^verbatim>\<open>shared/lib/\<close> with the base name of \<open>l\<close> is
  byte-identical to \<open>l\<close> afterwards. (The places in \<^verbatim>\<open>shared/lib/\<close> written from \<open>l\<close> on
  are not symbolic links, and \<open>l\<close> is not itself one of the places written after it.)
\<close>

theorem library_last_copy_wins:
  assumes ns: "\<not> strip cfg"
    and ok: "processBinary cfg ev binaryPath s = (None, s')"
    and dyn: "fst (isDynamicExecutable ev binaryPath)"
    and libs: "getLibs ev binaryPath = Inr (ls1 @ l # ls2)"
    and later: "\<forall>l'\<in>set ls2. Base l' \<noteq> Base l"
    and links: "\<forall>l'\<in>set (l # ls2). \<forall>t.
        files s (Join (Join (Join (dstDirPath cfg) defaultSharedDir) defaultLibDir) (Base l'))
          \<noteq> Some (Symlink t)"
    and src: "resolve (files s) l = Inr q"
    and srcf: "files s q = Some (File c0 m0)"
    and out: "\<forall>l'\<in>set ls2.
        q \<noteq> Join (Join (Join (dstDirPath cfg) defaultSharedDir) defaultLibDir) (Base l')"
  shows "\<exists>c. os_ReadFile (files s') l = Inr c
           \<and> os_ReadFile (files s')
                (Join (Join (Join (dstDirPath cfg) defaultSharedDir) defaultLibDir) (Base l))
              = Inr c"
proof -
  let ?D = "Join (Join (dstDirPath cfg) defaultSharedDir) defaultLibDir"
  let ?L = "Join (dstDirPath cfg) ''sharun''"
  define Inv where "Inv X \<longleftrightarrow>
      resolve (files X) l = Inr q
    \<and> (\<exists>c m. files X q = Some (File c m))
    \<and> (\<forall>l'\<in>set (l # ls2). \<forall>t. files X (Join ?D (Base l')) \<noteq> Some (Symlink t))" for X :: world
  have i0: "Inv s" using src srcf links by (simp add: Inv_def)
  have mk: "Inv Y" if "os_MkdirAll ev p pm X = (r, Y)" and "Inv X" for X Y p pm r
  proof -
    have d: "dirsAdded (files X) (files Y)" using that(1) by (rule os_MkdirAll_dirsAdded)
    from that(2) obtain c m where "files X q = Some (File c m)" by (auto simp: Inv_def)
    with d have "files Y q = Some (File c m)" by (rule dirsAdded_Some)
    with that(2) show ?thesis
      by (simp add: Inv_def dirsAdded_resolve [OF d] dirsAdded_links [OF d])
  qed
  have cp: "Inv Y" if "copyFile ev a b X = (r, Y)" and "Inv X" for X Y a b r
  proof -
    have r: "resolve (files Y) l = resolve (files X) l"
      by (rule resolve_same_links) (rule copyFile_keeps_links [OF that(1)])
    from that(2) obtain c m where "files X q = Some (File c m)" by (auto simp: Inv_def)
    from copyFile_keeps_perm [OF that(1) this] that(2) show ?thesis
      by (auto simp: Inv_def r copyFile_keeps_links [OF that(1)])
  qed
  have ch: "Inv Y" if "os_Chmod p pm X = (r, Y)" and "Inv X" for X Y p pm r
  proof -
    have r: "resolve (files Y) l = resolve (files X) l"
      by (rule resolve_same_links) (rule os_Chmod_keeps_links [OF that(1)])
    from that(2) obtain c m where "files X q = Some (File c m)" by (auto simp: Inv_def)
    from os_Chmod_keeps_file [OF that(1) this] that(2) show ?thesis
      by (auto simp: Inv_def r os_Chmod_keeps_links [OF that(1)])
  qed
  have sy: "Inv Y"
    if "createSymlink t (Join (Join (dstDirPath cfg) defaultBinDir) n) X = (r, Y)" and "Inv X"
    for X Y t n r
  proof -
    from that(2) obtain c m where f: "files X q = Some (File c m)" by (auto simp: Inv_def)
    from that(2) have "resolve (files X) l = Inr q" by (simp add: Inv_def)
    from createSymlink_resolve [OF that(1) this] f have r: "resolve (files Y) l = Inr q"
      by simp
    have "\<And>b. files Y (Join ?D b) = files X (Join ?D b)"
      by (rule createSymlink_frame [OF that(1)]) (simp add: Join_def)
    with createSymlink_keeps [OF that(1) f] r that(2) show ?thesis
      by (auto simp: Inv_def)
  qed
  from processBinary_None [OF ok] dyn obtain fileInfo s1
    where m1: "os_MkdirAll ev (dstDirPath cfg) perm0755 s = (None, s1)"
      and pd: "processDynamic cfg ev binaryPath fileInfo s1 = (None, s')"
    by auto
  from processDynamic_None [OF pd] libs obtain dp s2 s3 s4 s5 s6 s7 s8 s9 s10 where
      s2: "copyFile ev dp ?L s1 = (None, s2)"
    and s3: "os_Chmod ?L perm0755 s2 = (None, s3)"
    and s4: "os_MkdirAll ev (Join (dstDirPath cfg) defaultBinDir) perm0755 s3 = (None, s4)"
    and s5: "(if createLinks cfg
        then createSymlink [''..'', ''sharun'']
               (Join (Join (dstDirPath cfg) defaultBinDir) (Name fileInfo)) s4
        else (None, s4)) = (None, s5)"
    and s6: "os_MkdirAll ev (Join (Join (dstDirPath cfg) defaultSharedDir) defaultBinDir) perm0755 s5
        = (None, s6)"
    and s7: "os_MkdirAll ev ?D perm0755 s6 = (None, s7)"
    and s8: "copyFile ev binaryPath
          (Join (Join (Join (dstDirPath cfg) defaultSharedDir) defaultBinDir) (Name fileInfo)) s7
        = (None, s8)"
    and s9: "tryStrip cfg ev
          (Join (Join (Join (dstDirPath cfg) defaultSharedDir) defaultBinDir) (Name fileInfo)) s8
        = (None, s9)"
    and s10: "copyLibs cfg ev ?D (ls1 @ l # ls2) s9 = (None, s10)"
    and s': "s' = emit (ProcessedDynamic (Name fileInfo)) s10"
    by auto
  have i1: "Inv s1" using m1 i0 by (rule mk)
  have i2: "Inv s2" using s2 i1 by (rule cp)
  have i3: "Inv s3" using s3 i2 by (rule ch)
  have i4: "Inv s4" using s4 i3 by (rule mk)
  have i5: "Inv s5"
  proof (cases "createLinks cfg")
    case True
    with s5 have "createSymlink [''..'', ''sharun'']
               (Join (Join (dstDirPath cfg) defaultBinDir) (Name fileInfo)) s4 = (None, s5)"
      by simp
    then show ?thesis using i4 by (rule sy)
  next
    case False
    with s5 i4 show ?thesis by simp
  qed
  have i6: "Inv s6" using s6 i5 by (rule mk)
  have i7: "Inv s7" using s7 i6 by (rule mk)
  have i8: "Inv s8" using s8 i7 by (rule cp)
  have "s9 = s8" using s9 by (simp add: tryStrip_off [OF ns])
  with i8 have i9: "Inv s9" by simp
  \<comment> \<open>the loop: the libraries before \<open>l\<close>, \<open>l\<close> itself, the libraries after it\<close>
  from s10 obtain sa where la: "copyLibs cfg ev ?D ls1 s9 = (None, sa)"
    and lb: "copyLibs cfg ev ?D (l # ls2) sa = (None, s10)"
    unfolding copyLibs_append by (blast dest: andThen_None)
  from lb obtain sb where cl: "copyFile ev l (Join ?D (Base l)) sa = (None, sb)"
    and lc: "copyLibs cfg ev ?D ls2 sb = (None, s10)"
    by (auto simp: Let_def tryStrip_off [OF ns] dest!: andThen_None)
  have ra: "\<And>x. resolve (files sa) x = resolve (files s9) x"
    by (rule resolve_same_links) (rule copyLibs_keeps_links [OF la])
  have rb: "\<And>x. resolve (files sb) x = resolve (files sa) x"
    by (rule resolve_same_links) (rule copyFile_keeps_links [OF cl])
  have rc: "\<And>x. resolve (files s10) x = resolve (files sb) x"
    by (rule resolve_same_links) (rule copyLibs_keeps_links [OF lc])
  have lkb: "\<forall>l'\<in>set (l # ls2). \<forall>t. files sb (Join ?D (Base l')) \<noteq> Some (Symlink t)"
    using i9 by (simp add: Inv_def copyFile_keeps_links [OF cl] copyLibs_keeps_links [OF la])
  then have lkb2: "\<forall>l'\<in>set ls2. \<forall>t. files sb (Join ?D (Base l')) \<noteq> Some (Symlink t)"
    by simp
  from copyFile_post [OF cl] obtain c where
      c1: "os_ReadFile (files sb) l = Inr c"
    and c2: "os_ReadFile (files sb) (Join ?D (Base l)) = Inr c"
    by blast
  have rl: "resolve (files sb) l = Inr q" using i9 by (simp add: rb ra Inv_def)
  have rd: "resolve (files sb) (Join ?D (Base l)) = Inr (Join ?D (Base l))"
    using lkb by (intro resolve_self) (simp_all add: Join_def)
  have fq: "files s10 q = files sb q"
    using lc lkb2 out by (rule copyLibs_frame [OF ns])
  have fd: "files s10 (Join ?D (Base l)) = files sb (Join ?D (Base l))"
    using lc lkb2 by (rule copyLibs_frame [OF ns]) (use later in \<open>auto simp: Join_def\<close>)
  have "os_ReadFile (files s10) l = os_ReadFile (files sb) l"
    by (rule os_ReadFile_eq) (simp_all add: rc rl fq)
  moreover have "os_ReadFile (files s10) (Join ?D (Base l)) = os_ReadFile (files sb) (Join ?D (Base l))"
    by (rule os_ReadFile_eq) (simp_all add: rc rd fd)
  moreover have "files s' = files s10" by (simp add: s' emit_def)
  ultimately show ?thesis using c1 c2 by simp
qed

text \<open>
  Claim C1, amended, on \<^verbatim>\<open>c\<close> processed after \<^verbatim>\<open>d\<close>: \<^verbatim>\<open>shared/lib/libc.so.6\<close> holds the
  library of \<^verbatim>\<open>d\<close> before and the library of \<^verbatim>\<open>c\<close> afterwards.
\<close>

theorem library_last_copy_wins_witness:
  "\<not> strip defaultConfig
   \<and> fst (processBinary defaultConfig exEnv [''c''] (mainLoop defaultConfig exEnv [[''d'']] exWorld)) = None
   \<and> fst (isDynamicExecutable exEnv [''c''])
   \<and> getLibs exEnv [''c''] = Inr ([] @ [''liba'', ''libc.so.6''] # [[''liba'', ''ld.so'']])
   \<and> Base [''liba'', ''ld.so''] \<noteq> Base [''liba'', ''libc.so.6'']
   \<and> files (mainLoop defaultConfig exEnv [[''d'']] exWorld)
        [''output'', ''shared'', ''lib'', ''libc.so.6''] = Some (File ''libc-B'' 420)
   \<and> files (mainLoop defaultConfig exEnv [[''d'']] exWorld)
        [''output'', ''shared'', ''lib'', ''ld.so''] = None
   \<and> resolve (files (mainLoop defaultConfig exEnv [[''d'']] exWorld)) [''liba'', ''libc.so.6'']
       = Inr [''liba'', ''libc.so.6'']
   \<and> files (mainLoop defaultConfig exEnv [[''d'']] exWorld) [''liba'', ''libc.so.6'']
       = Some (File ''libc-A'' 420)
   \<and> os_ReadFile
        (files (snd (processBinary defaultConfig exEnv [''c''] (mainLoop defaultConfig exEnv [[''d'']] exWorld))))
        [''liba'', ''libc.so.6''] = Inr ''libc-A''
   \<and> os_ReadFile
        (files (snd (processBinary defaultConfig exEnv [''c''] (mainLoop defaultConfig exEnv [[''d'']] exWorld))))
        [''output'', ''shared'', ''lib'', ''libc.so.6''] = Inr ''libc-A''"
proof -
  let ?s = "mainLoop defaultConfig exEnv [[''d'']] exWorld"
  let ?s' = "snd (processBinary defaultConfig exEnv [''c''] ?s)"
  have D: "Join (Join (dstDirPath defaultConfig) defaultSharedDir) defaultLibDir
             = [''output'', ''shared'', ''lib'']"
    by (simp add: defaultConfig_def defaultDstDir_def defaultSharedDir_def defaultLibDir_def
          Join_def)
  have ns: "\<not> strip defaultConfig" by (simp add: defaultConfig_def)
  have h: "fst (processBinary defaultConfig exEnv [''c''] ?s) = None" by code_simp
  then have ok: "processBinary defaultConfig exEnv [''c''] ?s = (None, ?s')"
    by (metis prod.collapse)
  have dyn: "fst (isDynamicExecutable exEnv [''c''])" by code_simp
  have libs: "getLibs exEnv [''c''] = Inr ([] @ [''liba'', ''libc.so.6''] # [[''liba'', ''ld.so'']])"
    by code_simp
  have b: "Base [''liba'', ''ld.so''] \<noteq> Base [''liba'', ''libc.so.6'']" by (simp add: Base_def)
  have k1: "files ?s [''output'', ''shared'', ''lib'', ''libc.so.6''] = Some (File ''libc-B'' 420)"
    by code_simp
  have k2: "files ?s [''output'', ''shared'', ''lib'', ''ld.so''] = None" by code_simp
  have src: "resolve (files ?s) [''liba'', ''libc.so.6''] = Inr [''liba'', ''libc.so.6'']"
    by code_simp
  have srcf: "files ?s [''liba'', ''libc.so.6''] = Some (File ''libc-A'' 420)" by code_simp
  have later: "\<forall>l'\<in>set [[''liba'', ''ld.so'']]. Base l' \<noteq> Base [''liba'', ''libc.so.6'']"
    using b by simp
  have links: "\<forall>l'\<in>set ([''liba'', ''libc.so.6''] # [[''liba'', ''ld.so'']]). \<forall>t.
        files ?s (Join (Join (Join (dstDirPath defaultConfig) defaultSharedDir) defaultLibDir) (Base l'))
          \<noteq> Some (Symlink t)"
    unfolding D using k1 k2 by (simp add: Base_def Join_def del: mainLoop.simps)
  have out: "\<forall>l'\<in>set [[''liba'', ''ld.so'']].
        [''liba'', ''libc.so.6'']
          \<noteq> Join (Join (Join (dstDirPath defaultConfig) defaultSharedDir) defaultLibDir) (Base l')"
    unfolding D by (simp add: Base_def Join_def)
  have r: "os_ReadFile (files ?s') [''liba'', ''libc.so.6''] = Inr ''libc-A''" by code_simp
  from library_last_copy_wins [OF ns ok dyn libs later links src srcf out, unfolded D] r
  have "os_ReadFile (files ?s') [''output'', ''shared'', ''lib'', ''libc.so.6''] = Inr ''libc-A''"
    by (simp add: Base_def Join_def del: mainLoop.simps)
  with ns h dyn libs b k1 k2 src srcf r show ?thesis by blast
qed

subsection \<open>C2: the exit status\<close>

text \<open>
  Claim C2 says that the exit status is 0 if and only if no per-binary error occurred.
  It fails on a batch of one missing path: \<^verbatim>\<open>processBinary\<close> returns an error, the error is
  logged, and the exit status is 0.
\<close>

theorem exit_status_counterexample:
  "fst (processBinary defaultConfig exEnv [''missing''] exWorld) = Some ENOENT
   \<and> printed (snd (main defaultConfig exEnv [[''missing'']] exWorld))
       = [ErrorProcessing [''missing''] ENOENT]
   \<and> fst (main defaultConfig exEnv [[''missing'']] exWorld) = 0"
  by code_simp

text \<open>
  Claim C2, amended. The exit status does not depend on per-binary errors: it is 1 when no
  positional argument is given and 0 for every non-empty batch, whether or not the
  processing of a binary failed.
\<close>

theorem exit_status_amended:
  "fst (main cfg ev binaryList s) = (if binaryList = [] then 1 else 0)"
  by (simp add: main_def Let_def)

subsection \<open>C3: a missing launcher\<close>

text \<open>
  Claim C3 says that a batch aborts as a whole when the launcher cannot be located for its
  first dynamic binary, so that no later input is processed. It fails on the batch
  \<^verbatim>\<open>c a\<close> without a launcher on the search path: \<^verbatim>\<open>c\<close> fails, and the static binary
  \<^verbatim>\<open>a\<close> after it is processed and installed.
\<close>

theorem launcher_missing_counterexample:
  "lookPath exNoLauncher ''sharun'' = None
   \<and> fst (processBinary defaultConfig exNoLauncher [''c''] exWorld) = Some SharunNotFound
   \<and> printed (snd (main defaultConfig exNoLauncher [[''c''], [''a'']] exWorld))
       = [ErrorProcessing [''c''] SharunNotFound, ProcessedStatic ''a'']
   \<and> files (snd (main defaultConfig exNoLauncher [[''c''], [''a'']] exWorld))
       [''output'', ''bin'', ''a''] = Some (File ''static-A'' 493)"
  by code_simp

text \<open>
  Claim C3, amended. A launcher that cannot be located is fatal to the dynamic binary being
  processed and to nothing else: \<^verbatim>\<open>processBinary\<close> returns an error for that binary, having
  at most created directories, the error is logged, and the batch goes on with the inputs
  after it.
\<close>

theorem launcher_missing_amended:
  assumes nl: "lookPath ev ''sharun'' = None"
    and dyn: "fst (isDynamicExecutable ev binary)"
  shows "\<exists>e s1. processBinary cfg ev binary s = (Some e, s1)
           \<and> dirsAdded (files s) (files s1)
           \<and> mainLoop cfg ev (binary # rest) s
               = mainLoop cfg ev rest (emit (ErrorProcessing binary e) s1)"
proof -
  obtain r s1 where m: "os_MkdirAll ev (dstDirPath cfg) perm0755 s = (r, s1)"
    by (cases "os_MkdirAll ev (dstDirPath cfg) perm0755 s") auto
  have d: "dirsAdded (files s) (files s1)"
    using os_MkdirAll_fs [OF m] by (blast intro: fs_MkdirAll_dirsAdded)
  from dyn have b: "isDynamicExecutable ev binary = (True, None)"
    using isDynamicExecutable_snd [of ev binary]
    by (cases "isDynamicExecutable ev binary") auto
  have "\<exists>e s1. processBinary cfg ev binary s = (Some e, s1) \<and> dirsAdded (files s) (files s1)"
  proof (cases "os_Stat (files s) binary")
    case (Inl e)
    then show ?thesis by (auto simp: processBinary_def dirsAdded_refl)
  next
    case (Inr info)
    show ?thesis
    proof (cases "IsRegular (Mode info)")
      case False
      with Inr show ?thesis by (auto simp: processBinary_def dirsAdded_refl)
    next
      case True
      show ?thesis
      proof (cases r)
        case None
        with Inr True b m nl d show ?thesis
          by (auto simp: processBinary_def processDynamic_no_launcher)
      next
        case (Some e)
        with Inr True b m d show ?thesis
          by (auto simp: processBinary_def)
      qed
    qed
  qed
  then show ?thesis by (auto simp: mainLoop_error)
qed

text \<open>
  Claim C3, amended, on the batch \<^verbatim>\<open>c a\<close> without a launcher.
\<close>

theorem launcher_missing_amended_witness:
  "lookPath exNoLauncher ''sharun'' = None
   \<and> fst (isDynamicExecutable exNoLauncher [''c''])
   \<and> (\<exists>e s1. processBinary defaultConfig exNoLauncher [''c''] exWorld = (Some e, s1)
           \<and> dirsAdded (files exWorld) (files s1)
           \<and> mainLoop defaultConfig exNoLauncher [[''c''], [''a'']] exWorld
               = mainLoop defaultConfig exNoLauncher [[''a'']] (emit (ErrorProcessing [''c''] e) s1))"
proof -
  have h1: "lookPath exNoLauncher ''sharun'' = None" by code_simp
  have h2: "fst (isDynamicExecutable exNoLauncher [''c''])" by code_simp
  from launcher_missing_amended [OF h1 h2, of defaultConfig exWorld "[[''a'']]"] h1 h2
  show ?thesis by simp
qed

subsection \<open>C4: the launcher is copied for every dynamic binary\<close>

text \<open>
  Claim C4 says that the launcher is copied for the first dynamic binary only and reused
  by the later ones. It fails on the batch \<^verbatim>\<open>c d\<close> of two dynamic binaries: both are
  processed, and \<^verbatim>\<open>os.WriteFile\<close> is called twice on \<^verbatim>\<open>output/sharun\<close>.
\<close>

theorem launcher_copied_once_counterexample:
  "fst (isDynamicExecutable exEnv [''c'']) \<and> fst (isDynamicExecutable exEnv [''d''])
   \<and> printed (snd (main defaultConfig exEnv [[''c''], [''d'']] exWorld))
       = [ProcessedDynamic ''c'', ProcessedDynamic ''d'']
   \<and> writesTo [''output'', ''sharun''] (calls (snd (main defaultConfig exEnv [[''c''], [''d'']] exWorld))) = 2"
  by code_simp

text \<open>
  Claim C4, amended. For every batch, the launcher is copied into the output root once for
  each dynamic binary that is processed, not once per batch: processing a dynamic binary
  calls \<^verbatim>\<open>os.WriteFile\<close> on the launcher's place in the output root exactly once, whether
  or not a copy is there already. A later dynamic binary does not reuse the copy, it writes
  it again.
\<close>

theorem launcher_copied_per_binary:
  assumes ok: "processBinary cfg ev binaryPath s = (None, s')"
    and dyn: "fst (isDynamicExecutable ev binaryPath)"
  shows "writesTo (Join (dstDirPath cfg) ''sharun'') (calls s')
           = Suc (writesTo (Join (dstDirPath cfg) ''sharun'') (calls s))"
proof -
  let ?L = "Join (dstDirPath cfg) ''sharun''"
  from processBinary_None [OF ok] dyn obtain fileInfo s1
    where m1: "os_MkdirAll ev (dstDirPath cfg) perm0755 s = (None, s1)"
      and pd: "processDynamic cfg ev binaryPath fileInfo s1 = (None, s')"
    by auto
  from processDynamic_None [OF pd] obtain dp s2 s3 s4 s5 s6 s7 s8 s9 libs s10 where
      s2: "copyFile ev dp ?L s1 = (None, s2)"
    and s3: "os_Chmod ?L perm0755 s2 = (None, s3)"
    and s4: "os_MkdirAll ev (Join (dstDirPath cfg) defaultBinDir) perm0755 s3 = (None, s4)"
    and s5: "(if createLinks cfg
        then createSymlink [''..'', ''sharun'']
               (Join (Join (dstDirPath cfg) defaultBinDir) (Name fileInfo)) s4
        else (None, s4)) = (None, s5)"
    and s6: "os_MkdirAll ev (Join (Join (dstDirPath cfg) defaultSharedDir) defaultBinDir) perm0755 s5
        = (None, s6)"
    and s7: "os_MkdirAll ev (Join (Join (dstDirPath cfg) defaultSharedDir) defaultLibDir) perm0755 s6
        = (None, s7)"
    and s8: "copyFile ev binaryPath
          (Join (Join (Join (dstDirPath cfg) defaultSharedDir) defaultBinDir) (Name fileInfo)) s7
        = (None, s8)"
    and s9: "tryStrip cfg ev
          (Join (Join (Join (dstDirPath cfg) defaultSharedDir) defaultBinDir) (Name fileInfo)) s8
        = (None, s9)"
    and s10: "copyLibs cfg ev (Join (Join (dstDirPath cfg) defaultSharedDir) defaultLibDir) libs s9
        = (None, s10)"
    and s': "s' = emit (ProcessedDynamic (Name fileInfo)) s10"
    by blast
  have w1: "writesTo ?L (calls s1) = writesTo ?L (calls s)"
    using m1 by (rule os_MkdirAll_writesTo)
  have w2: "writesTo ?L (calls s2) = Suc (writesTo ?L (calls s1))"
    using copyFile_calls_None [OF s2] by (auto simp: writesTo_snoc)
  have w3: "writesTo ?L (calls s3) = writesTo ?L (calls s2)"
    using s3 by (rule os_Chmod_writesTo)
  have w4: "writesTo ?L (calls s4) = writesTo ?L (calls s3)"
    using s4 by (rule os_MkdirAll_writesTo)
  have w5: "writesTo ?L (calls s5) = writesTo ?L (calls s4)"
    using s5 by (auto dest: createSymlink_writesTo split: if_splits)
  have w6: "writesTo ?L (calls s6) = writesTo ?L (calls s5)"
    using s6 by (rule os_MkdirAll_writesTo)
  have w7: "writesTo ?L (calls s7) = writesTo ?L (calls s6)"
    using s7 by (rule os_MkdirAll_writesTo)
  have w8: "writesTo ?L (calls s8) = writesTo ?L (calls s7)"
    using s8 by (rule copyFile_writesTo) (simp add: Join_def)
  have w9: "writesTo ?L (calls s9) = writesTo ?L (calls s8)"
    using s9 by (rule tryStrip_writesTo)
  have w10: "writesTo ?L (calls s10) = writesTo ?L (calls s9)"
    by (rule copyLibs_writesTo [OF _ s10]) (simp add: Join_def)
  have "calls s' = calls s10" by (simp add: s' emit_def)
  with w1 w2 w3 w4 w5 w6 w7 w8 w9 w10 show ?thesis by simp
qed

text \<open>
  Claim C4, amended, on \<^verbatim>\<open>d\<close> processed after \<^verbatim>\<open>c\<close>: the launcher is in place, and is
  written a second time.
\<close>

theorem launcher_copied_per_binary_witness:
  "fst (processBinary defaultConfig exEnv [''d''] (mainLoop defaultConfig exEnv [[''c'']] exWorld)) = None
   \<and> fst (isDynamicExecutable exEnv [''d''])
   \<and> files (mainLoop defaultConfig exEnv [[''c'']] exWorld) [''output'', ''sharun'']
       = Some (File ''launcher'' 493)
   \<and> writesTo [''output'', ''sharun''] (calls (mainLoop defaultConfig exEnv [[''c'']] exWorld)) = 1
   \<and> writesTo [''output'', ''sharun'']
        (calls (snd (processBinary defaultConfig exEnv [''d''] (mainLoop defaultConfig exEnv [[''c'']] exWorld)))) = 2"
proof -
  let ?s = "mainLoop defaultConfig exEnv [[''c'']] exWorld"
  have h1: "fst (processBinary defaultConfig exEnv [''d''] ?s) = None" by code_simp
  then have ok: "processBinary defaultConfig exEnv [''d''] ?s
      = (None, snd (processBinary defaultConfig exEnv [''d''] ?s))"
    by (metis prod.collapse)
  have h2: "fst (isDynamicExecutable exEnv [''d''])" by code_simp
  have f: "files ?s [''output'', ''sharun''] = Some (File ''launcher'' 493)" by code_simp
  have w: "writesTo [''output'', ''sharun''] (calls ?s) = 1" by code_simp
  have d: "Join (dstDirPath defaultConfig) ''sharun'' = [''output'', ''sharun'']"
    by (simp add: defaultConfig_def defaultDstDir_def Join_def)
  from launcher_copied_per_binary [OF ok h2] h1 h2 f w show ?thesis by (simp add: d)
qed

subsection \<open>C5: a static binary is copied as it is\<close>

text \<open>
  Claim C5. For every static input binary processed with stripping disabled, that is,
  whenever \<^verbatim>\<open>processBinary\<close> returns no error for it, the resulting file \<^verbatim>\<open>bin/A\<close> is
  byte-identical to the input and its permission bits are 0755: read and execute for owner,
  group and other, write for the owner. This holds from every world, whatever was at
  \<^verbatim>\<open>bin/A\<close> before: a file there is overwritten. Whether the calls succeed is not part of
  the statement; where the process may not write \<^verbatim>\<open>bin/A\<close>, the program returns the error
  and the binary is not processed.
\<close>

theorem static_roundtrip:
  assumes ns: "\<not> strip cfg"
    and st: "\<not> fst (isDynamicExecutable ev binaryPath)"
  shows "processBinary cfg ev binaryPath s = (None, s') \<longrightarrow>
           (\<exists>c. os_ReadFile (files s) binaryPath = Inr c
              \<and> os_ReadFile (files s') (Join (Join (dstDirPath cfg) defaultBinDir) (last binaryPath)) = Inr c
              \<and> os_Stat (files s') (Join (Join (dstDirPath cfg) defaultBinDir) (last binaryPath))
                  = Inr \<lparr>Name = last binaryPath, Mode = ModeRegular perm0755\<rparr>)"
  using static_copy_post [OF ns st] by blast

text \<open>
  Claim C5 on the static binary \<^verbatim>\<open>a\<close>, where an earlier run left a different file of mode
  0600 at \<^verbatim>\<open>output/bin/a\<close>: the file is overwritten.
\<close>

theorem static_roundtrip_witness:
  "\<not> strip defaultConfig
   \<and> \<not> fst (isDynamicExecutable exEnv [''a''])
   \<and> os_ReadFile (files exWorldOld) [''a''] = Inr ''static-A''
   \<and> files exWorldOld [''output'', ''bin'', ''a''] = Some (File ''old'' 384)
   \<and> fst (processBinary defaultConfig exEnv [''a''] exWorldOld) = None
   \<and> os_ReadFile (files (snd (processBinary defaultConfig exEnv [''a''] exWorldOld)))
        [''output'', ''bin'', ''a''] = Inr ''static-A''
   \<and> os_Stat (files (snd (processBinary defaultConfig exEnv [''a''] exWorldOld)))
        [''output'', ''bin'', ''a''] = Inr \<lparr>Name = ''a'', Mode = ModeRegular perm0755\<rparr>"
proof -
  let ?s' = "snd (processBinary defaultConfig exEnv [''a''] exWorldOld)"
  have h1: "\<not> strip defaultConfig" by (simp add: defaultConfig_def)
  have h2: "\<not> fst (isDynamicExecutable exEnv [''a''])" by code_simp
  have h3: "fst (processBinary defaultConfig exEnv [''a''] exWorldOld) = None"
    by code_simp
  then have ok: "processBinary defaultConfig exEnv [''a''] exWorldOld = (None, ?s')"
    by (metis prod.collapse)
  have r: "os_ReadFile (files exWorldOld) [''a''] = Inr ''static-A''" by code_simp
  have old: "files exWorldOld [''output'', ''bin'', ''a''] = Some (File ''old'' 384)"
    by code_simp
  have p: "Join (Join (dstDirPath defaultConfig) defaultBinDir) (last [''a''])
             = [''output'', ''bin'', ''a'']"
    by (simp add: defaultConfig_def defaultDstDir_def Join_def defaultBinDir_def)
  from static_roundtrip [OF h1 h2, of exWorldOld ?s', unfolded p] ok r have
      "os_ReadFile (files ?s') [''output'', ''bin'', ''a''] = Inr ''static-A''"
    and "os_Stat (files ?s') [''output'', ''bin'', ''a'']
          = Inr \<lparr>Name = ''a'', Mode = ModeRegular perm0755\<rparr>"
    by auto
  with h1 h2 r old h3 show ?thesis by blast
qed

subsection \<open>C6: a prober that fails means static\<close>

text \<open>
  Claim C6. For every input path on which the linkage prober fails to run (the tool is
  missing, the file is unreadable or not an ELF file), \<^verbatim>\<open>isDynamicExecutable\<close> returns
  static and no error, so \<^verbatim>\<open>processBinary\<close> takes the static installation path for it.
\<close>

theorem prober_failure_is_static:
  assumes "lddCmd ev binaryPath = None"
  shows "isDynamicExecutable ev binaryPath = (False, None)
       \<and> (os_Stat (files s) binaryPath = Inr fileInfo \<longrightarrow> IsRegular (Mode fileInfo) \<longrightarrow>
            processBinary cfg ev binaryPath s =
              andThen (os_MkdirAll ev (dstDirPath cfg) perm0755 s)
                      (processStatic cfg ev binaryPath fileInfo))"
  using assms by (simp add: isDynamicExecutable_def processBinary_def)

text \<open>
  Claim C6 on the text file \<^verbatim>\<open>notes\<close>: \<^verbatim>\<open>ldd\<close> fails on it, it is classified as static and
  it is installed as \<^verbatim>\<open>output/bin/notes\<close>.
\<close>

theorem prober_failure_is_static_witness:
  "lddCmd exEnv [''notes''] = None
   \<and> isDynamicExecutable exEnv [''notes''] = (False, None)
   \<and> os_Stat (files exWorld) [''notes''] = Inr \<lparr>Name = ''notes'', Mode = ModeRegular 420\<rparr>
   \<and> processBinary defaultConfig exEnv [''notes''] exWorld =
        andThen (os_MkdirAll exEnv (dstDirPath defaultConfig) perm0755 exWorld)
                (processStatic defaultConfig exEnv [''notes'']
                   \<lparr>Name = ''notes'', Mode = ModeRegular 420\<rparr>)
   \<and> files (snd (processBinary defaultConfig exEnv [''notes''] exWorld))
         [''output'', ''bin'', ''notes''] = Some (File ''plain text'' 493)"
proof -
  have h: "lddCmd exEnv [''notes''] = None" by code_simp
  have st: "os_Stat (files exWorld) [''notes''] = Inr \<lparr>Name = ''notes'', Mode = ModeRegular 420\<rparr>"
    by code_simp
  have rg: "IsRegular (Mode \<lparr>Name = ''notes'', Mode = ModeRegular 420\<rparr>)"
    by (simp add: IsRegular_def)
  have f: "files (snd (processBinary defaultConfig exEnv [''notes''] exWorld))
             [''output'', ''bin'', ''notes''] = Some (File ''plain text'' 493)"
    by code_simp
  from prober_failure_is_static [OF h, of exWorld "\<lparr>Name = ''notes'', Mode = ModeRegular 420\<rparr>" defaultConfig]
    h st rg f
  show ?thesis by simp
qed

subsection \<open>C7: a link never replaces a file\<close>

text \<open>
  Claim C7. For every dynamic binary B such that a regular file already exists at
  \<^verbatim>\<open>bin/B\<close>, creating the link fails with \<^verbatim>\<open>EEXIST\<close> and changes no file: there is no
  implicit overwrite, in contrast to the static path, which overwrites (C5). When links are
  requested, \<^verbatim>\<open>processBinary\<close> therefore fails for B, and the file at \<^verbatim>\<open>bin/B\<close> is what it
  was (the launcher's place in the output root not being a symbolic link, through which the
  launcher copy before it could write anywhere).
\<close>

theorem symlink_no_overwrite:
  assumes ex: "files s (Join (Join (dstDirPath cfg) defaultBinDir) (last binaryPath)) = Some (File c m)"
  shows "createSymlink t (Join (Join (dstDirPath cfg) defaultBinDir) (last binaryPath)) s
           = (Some EEXIST,
              s\<lparr>calls := calls s @ [SymlinkCall t (Join (Join (dstDirPath cfg) defaultBinDir) (last binaryPath))]\<rparr>)
       \<and> (createLinks cfg \<longrightarrow> fst (isDynamicExecutable ev binaryPath) \<longrightarrow>
           (\<forall>t. files s (Join (dstDirPath cfg) ''sharun'') \<noteq> Some (Symlink t)) \<longrightarrow>
             (\<exists>e. fst (processBinary cfg ev binaryPath s) = Some e)
             \<and> files (snd (processBinary cfg ev binaryPath s))
                 (Join (Join (dstDirPath cfg) defaultBinDir) (last binaryPath)) = Some (File c m))"
proof (intro conjI impI)
  let ?K = "Join (Join (dstDirPath cfg) defaultBinDir) (last binaryPath)"
  show "createSymlink t ?K s = (Some EEXIST, s\<lparr>calls := calls s @ [SymlinkCall t ?K]\<rparr>)"
    using ex by (simp add: createSymlink_def os_Symlink_def fs_Symlink_def Join_def)
next
  let ?K = "Join (Join (dstDirPath cfg) defaultBinDir) (last binaryPath)"
  let ?L = "Join (dstDirPath cfg) ''sharun''"
  assume cl: "createLinks cfg" and dyn: "fst (isDynamicExecutable ev binaryPath)"
    and nl: "\<forall>t. files s ?L \<noteq> Some (Symlink t)"
  from dyn have b: "isDynamicExecutable ev binaryPath = (True, None)"
    using isDynamicExecutable_snd [of ev binaryPath]
    by (cases "isDynamicExecutable ev binaryPath") auto
  have post: "fst (processBinary cfg ev binaryPath s) \<noteq> None
       \<and> files (snd (processBinary cfg ev binaryPath s)) ?K = Some (File c m)"
  proof (cases "os_Stat (files s) binaryPath")
    case (Inl e)
    with ex show ?thesis by (simp add: processBinary_def)
  next
    case (Inr info)
    have nm: "Name info = last binaryPath" using Inr by (rule os_Stat_Name)
    obtain r1 s1 where s1: "os_MkdirAll ev (dstDirPath cfg) perm0755 s = (r1, s1)"
      by (cases "os_MkdirAll ev (dstDirPath cfg) perm0755 s") auto
    have d1: "dirsAdded (files s) (files s1)" using s1 by (rule os_MkdirAll_dirsAdded)
    have f1: "files s1 (Join (Join (dstDirPath cfg) defaultBinDir) (Name info)) = Some (File c m)"
      unfolding nm using d1 ex by (rule dirsAdded_Some)
    have l1: "\<And>t. files s1 ?L \<noteq> Some (Symlink t)"
      using nl by (simp add: dirsAdded_links [OF d1])
    note pd = processDynamic_link_exists [OF cl f1 l1, of ev binaryPath, unfolded nm]
    show ?thesis
      using ex f1 pd
      by (cases "IsRegular (Mode info)"; cases r1)
         (simp_all add: processBinary_def Inr b s1 nm)
  qed
  then show "\<exists>e. fst (processBinary cfg ev binaryPath s) = Some e" by auto
  from post show "files (snd (processBinary cfg ev binaryPath s)) ?K = Some (File c m)" by simp
qed

text \<open>
  Claim C7 on the dynamic binary \<^verbatim>\<open>c\<close>, where an earlier run left a regular file at
  \<^verbatim>\<open>output/bin/c\<close>.
\<close>

theorem symlink_no_overwrite_witness:
  "files exWorldOld [''output'', ''bin'', ''c''] = Some (File ''old-c'' 420)
   \<and> createLinks defaultConfig
   \<and> fst (isDynamicExecutable exEnv [''c''])
   \<and> files exWorldOld [''output'', ''sharun''] = None
   \<and> createSymlink [''..'', ''sharun''] [''output'', ''bin'', ''c''] exWorldOld
       = (Some EEXIST,
          exWorldOld\<lparr>calls := calls exWorldOld
                        @ [SymlinkCall [''..'', ''sharun''] [''output'', ''bin'', ''c'']]\<rparr>)
   \<and> fst (processBinary defaultConfig exEnv [''c''] exWorldOld) = Some EEXIST
   \<and> files (snd (processBinary defaultConfig exEnv [''c''] exWorldOld))
        [''output'', ''bin'', ''c''] = Some (File ''old-c'' 420)"
proof -
  have k: "Join (Join (dstDirPath defaultConfig) defaultBinDir) (last [''c''])
             = [''output'', ''bin'', ''c'']"
    and l: "Join (dstDirPath defaultConfig) ''sharun'' = [''output'', ''sharun'']"
    by (simp_all add: defaultConfig_def defaultDstDir_def defaultBinDir_def Join_def)
  have ex: "files exWorldOld [''output'', ''bin'', ''c''] = Some (File ''old-c'' 420)"
    by code_simp
  have cl: "createLinks defaultConfig" by (simp add: defaultConfig_def)
  have dyn: "fst (isDynamicExecutable exEnv [''c''])" by code_simp
  have nl: "files exWorldOld [''output'', ''sharun''] = None" by code_simp
  have e: "fst (processBinary defaultConfig exEnv [''c''] exWorldOld) = Some EEXIST"
    by code_simp
  note t = symlink_no_overwrite
             [where s = exWorldOld and cfg = defaultConfig and binaryPath = "[''c'']"
                and t = "[''..'', ''sharun'']" and ev = exEnv, unfolded k l, OF ex]
  from t cl dyn nl have
    "createSymlink [''..'', ''sharun''] [''output'', ''bin'', ''c''] exWorldOld
       = (Some EEXIST,
          exWorldOld\<lparr>calls := calls exWorldOld
                        @ [SymlinkCall [''..'', ''sharun''] [''output'', ''bin'', ''c'']]\<rparr>)"
    and "files (snd (processBinary defaultConfig exEnv [''c''] exWorldOld))
        [''output'', ''bin'', ''c''] = Some (File ''old-c'' 420)"
    by simp_all
  with ex cl dyn nl e show ?thesis by blast
qed

subsection \<open>C8: a failure and the rest of the batch\<close>

text \<open>
  Claim C8 says that a failure while processing one binary does not alter the outputs
  produced for the binaries already processed. It fails with \<^verbatim>\<open>-create-links=false\<close> on
  the batch \<^verbatim>\<open>x/foo y/foo\<close>: \<^verbatim>\<open>x/foo\<close> is processed and \<^verbatim>\<open>shared/bin/foo\<close> holds its
  bytes; \<^verbatim>\<open>y/foo\<close> fails when its libraries are listed, after its bytes were copied over
  \<^verbatim>\<open>shared/bin/foo\<close>.
\<close>

theorem failure_isolation_counterexample:
  "printed (mainLoop exNoLinks exEnv [[''x'', ''foo'']] exWorld) = [ProcessedDynamic ''foo'']
   \<and> files (mainLoop exNoLinks exEnv [[''x'', ''foo'']] exWorld)
        [''output'', ''shared'', ''bin'', ''foo''] = Some (File ''foo-X'' 420)
   \<and> fst (processBinary exNoLinks exEnv [''y'', ''foo'']
            (mainLoop exNoLinks exEnv [[''x'', ''foo'']] exWorld)) = Some LddFailed
   \<and> files (snd (main exNoLinks exEnv [[''x'', ''foo''], [''y'', ''foo'']] exWorld))
        [''output'', ''shared'', ''bin'', ''foo''] = Some (File ''foo-Y'' 420)"
  by code_simp

text \<open>
  Claim C8, amended. For every input list, a failure while processing one binary never
  stops the batch: the error is logged and the binaries after it are processed from the
  world the failed call left. A failure at input validation (a missing path or one that is
  not a regular file) leaves the world exactly as it was, so the outputs of the binaries
  already processed are untouched. (A failure at a later step keeps what was written before
  it; the statement says nothing about those writes.)
\<close>

theorem failure_isolation_amended:
  "(fst (processBinary cfg ev binary (mainLoop cfg ev pre s)) = Some e \<longrightarrow>
      mainLoop cfg ev (pre @ binary # rest) s
        = mainLoop cfg ev rest
            (emit (ErrorProcessing binary e)
               (snd (processBinary cfg ev binary (mainLoop cfg ev pre s)))))
   \<and> ((\<forall>info. os_Stat (files (mainLoop cfg ev pre s)) binary = Inr info
                 \<longrightarrow> \<not> IsRegular (Mode info)) \<longrightarrow>
        (\<exists>e'. processBinary cfg ev binary (mainLoop cfg ev pre s)
                = (Some e', mainLoop cfg ev pre s)
             \<and> mainLoop cfg ev (pre @ binary # rest) s
                = mainLoop cfg ev rest
                    (emit (ErrorProcessing binary e') (mainLoop cfg ev pre s))))"
proof (intro conjI impI)
  assume "fst (processBinary cfg ev binary (mainLoop cfg ev pre s)) = Some e"
  then obtain s1 where p: "processBinary cfg ev binary (mainLoop cfg ev pre s) = (Some e, s1)"
    by (cases "processBinary cfg ev binary (mainLoop cfg ev pre s)") auto
  have "mainLoop cfg ev (pre @ binary # rest) s
      = mainLoop cfg ev rest (emit (ErrorProcessing binary e) s1)"
    unfolding mainLoop_append using p by (rule mainLoop_error)
  then show "mainLoop cfg ev (pre @ binary # rest) s
        = mainLoop cfg ev rest
            (emit (ErrorProcessing binary e)
               (snd (processBinary cfg ev binary (mainLoop cfg ev pre s))))"
    by (simp add: p)
next
  assume "\<forall>info. os_Stat (files (mainLoop cfg ev pre s)) binary = Inr info
                 \<longrightarrow> \<not> IsRegular (Mode info)"
  then obtain e' where p: "processBinary cfg ev binary (mainLoop cfg ev pre s)
                = (Some e', mainLoop cfg ev pre s)"
    using processBinary_invalid [of "mainLoop cfg ev pre s" binary cfg ev] by blast
  have "mainLoop cfg ev (pre @ binary # rest) s
      = mainLoop cfg ev rest (emit (ErrorProcessing binary e') (mainLoop cfg ev pre s))"
    unfolding mainLoop_append using p by (rule mainLoop_error)
  with p show "\<exists>e'. processBinary cfg ev binary (mainLoop cfg ev pre s)
                = (Some e', mainLoop cfg ev pre s)
             \<and> mainLoop cfg ev (pre @ binary # rest) s
                = mainLoop cfg ev rest
                    (emit (ErrorProcessing binary e') (mainLoop cfg ev pre s))"
    by blast
qed

text \<open>
  Claim C8, amended, on the batch \<^verbatim>\<open>a missing c\<close>: \<^verbatim>\<open>bin/a\<close>, the launcher, the link
  \<^verbatim>\<open>bin/c\<close>, \<^verbatim>\<open>shared/bin/c\<close> and both libraries of \<^verbatim>\<open>c\<close> are present, and only
  \<^verbatim>\<open>missing\<close> is reported as failed.
\<close>

theorem failure_isolation_amended_witness:
  "fst (processBinary defaultConfig exEnv [''missing'']
          (mainLoop defaultConfig exEnv [[''a'']] exWorld)) = Some ENOENT
   \<and> os_Stat (files (mainLoop defaultConfig exEnv [[''a'']] exWorld)) [''missing''] = Inl ENOENT
   \<and> mainLoop defaultConfig exEnv ([[''a'']] @ [''missing''] # [[''c'']]) exWorld
       = mainLoop defaultConfig exEnv [[''c'']]
           (emit (ErrorProcessing [''missing''] ENOENT)
              (snd (processBinary defaultConfig exEnv [''missing'']
                      (mainLoop defaultConfig exEnv [[''a'']] exWorld))))
   \<and> (\<exists>e'. processBinary defaultConfig exEnv [''missing'']
               (mainLoop defaultConfig exEnv [[''a'']] exWorld)
             = (Some e', mainLoop defaultConfig exEnv [[''a'']] exWorld))
   \<and> printed (mainLoop defaultConfig exEnv [[''a''], [''missing''], [''c'']] exWorld)
       = [ProcessedStatic ''a'', ErrorProcessing [''missing''] ENOENT, ProcessedDynamic ''c'']
   \<and> map (files (mainLoop defaultConfig exEnv [[''a''], [''missing''], [''c'']] exWorld))
         [[''output'', ''bin'', ''a''], [''output'', ''sharun''], [''output'', ''bin'', ''c''],
          [''output'', ''shared'', ''bin'', ''c''],
          [''output'', ''shared'', ''lib'', ''libc.so.6''],
          [''output'', ''shared'', ''lib'', ''ld.so'']]
       = [Some (File ''static-A'' 493), Some (File ''launcher'' 493),
          Some (Symlink [''..'', ''sharun'']), Some (File ''dynamic-C'' 420),
          Some (File ''libc-A'' 420), Some (File ''ld'' 420)]"
proof -
  let ?s = "mainLoop defaultConfig exEnv [[''a'']] exWorld"
  have h1: "fst (processBinary defaultConfig exEnv [''missing''] ?s) = Some ENOENT"
    by code_simp
  have h2: "os_Stat (files ?s) [''missing''] = Inl ENOENT" by code_simp
  have h2': "\<forall>info. os_Stat (files ?s) [''missing''] = Inr info \<longrightarrow> \<not> IsRegular (Mode info)"
    using h2 by (simp del: mainLoop.simps)
  note t = failure_isolation_amended
             [of defaultConfig exEnv "[''missing'']" "[[''a'']]" exWorld ENOENT "[[''c'']]"]
  from t h1 have c1: "mainLoop defaultConfig exEnv ([[''a'']] @ [''missing''] # [[''c'']]) exWorld
       = mainLoop defaultConfig exEnv [[''c'']]
           (emit (ErrorProcessing [''missing''] ENOENT)
              (snd (processBinary defaultConfig exEnv [''missing''] ?s)))"
    by blast
  from t h2' have c2: "\<exists>e'. processBinary defaultConfig exEnv [''missing''] ?s = (Some e', ?s)"
    by blast
  have p: "printed (mainLoop defaultConfig exEnv [[''a''], [''missing''], [''c'']] exWorld)
       = [ProcessedStatic ''a'', ErrorProcessing [''missing''] ENOENT, ProcessedDynamic ''c'']"
    by code_simp
  have f: "map (files (mainLoop defaultConfig exEnv [[''a''], [''missing''], [''c'']] exWorld))
         [[''output'', ''bin'', ''a''], [''output'', ''sharun''], [''output'', ''bin'', ''c''],
          [''output'', ''shared'', ''bin'', ''c''],
          [''output'', ''shared'', ''lib'', ''libc.so.6''],
          [''output'', ''shared'', ''lib'', ''ld.so'']]
       = [Some (File ''static-A'' 493), Some (File ''launcher'' 493),
          Some (Symlink [''..'', ''sharun'']), Some (File ''dynamic-C'' 420),
          Some (File ''libc-A'' 420), Some (File ''ld'' 420)]"
    by code_simp
  from h1 h2 c1 c2 p f show ?thesis by blast
qed

subsection \<open>C9: no arguments\<close>

text \<open>
  Claim C9. For an empty input list (no positional arguments) the program prints an error
  message and exits with status 1, without creating the destination directory or making
  any other change to the filesystem: the files are the same and no mutating call was made.
\<close>

theorem main_no_arguments:
  "fst (main cfg ev [] s) = 1
   \<and> files (snd (main cfg ev [] s)) = files s
   \<and> calls (snd (main cfg ev [] s)) = calls s
   \<and> printed (snd (main cfg ev [] s)) = printed s @ [ErrorSpecifyBinary]"
  by (simp add: main_def emit_def)

subsection \<open>C10: the permission bits of the copy in shared/bin\<close>

text \<open>
  Claim C10 says that the copy in \<^verbatim>\<open>shared/bin/\<close> carries no execute permission bits, for
  every dynamic binary processed. It fails on \<^verbatim>\<open>d\<close> where \<^verbatim>\<open>output/shared/bin/d\<close> exists
  with mode 0755: \<^verbatim>\<open>os.WriteFile\<close> replaces the bytes and leaves the mode, and the copy
  has all three execute bits.
\<close>

theorem shared_binary_mode_counterexample:
  "files exWorldOld [''output'', ''shared'', ''bin'', ''d''] = Some (File ''old-d'' 493)
   \<and> fst (isDynamicExecutable exEnv [''d''])
   \<and> fst (processBinary defaultConfig exEnv [''d''] exWorldOld) = None
   \<and> files (snd (processBinary defaultConfig exEnv [''d''] exWorldOld))
        [''output'', ''shared'', ''bin'', ''d''] = Some (File ''dynamic-D'' 493)
   \<and> (493 :: perm) AND perm0111 = 73"
  by code_simp

text \<open>
  Claim C10, amended. For every dynamic binary processed, the copy in \<^verbatim>\<open>shared/bin/\<close> is
  written with \<^verbatim>\<open>os.WriteFile\<close> and mode 0644, and \<^verbatim>\<open>os.Chmod\<close> is never called on it. So a
  copy that is created has mode 0644 less the umask and no execute bit, while a file that
  was at \<^verbatim>\<open>shared/bin/B\<close> before keeps the permission bits it had, execute bits included.
  (Neither \<^verbatim>\<open>shared/bin/B\<close> nor the launcher's place in the output root is a symbolic
  link.)
\<close>

theorem shared_binary_mode:
  assumes ok: "processBinary cfg ev binaryPath s = (None, s')"
    and dyn: "fst (isDynamicExecutable ev binaryPath)"
    and nl: "\<forall>t. files s (Join (dstDirPath cfg) ''sharun'') \<noteq> Some (Symlink t)"
    and nk: "\<forall>t. files s (Join (Join (Join (dstDirPath cfg) defaultSharedDir) defaultBinDir) (last binaryPath))
                   \<noteq> Some (Symlink t)"
  shows "(\<exists>c. files s' (Join (Join (Join (dstDirPath cfg) defaultSharedDir) defaultBinDir) (last binaryPath))
              = Some (File c
                  (case files s (Join (Join (Join (dstDirPath cfg) defaultSharedDir) defaultBinDir) (last binaryPath)) of
                     Some (File c0 m0) \<Rightarrow> m0
                   | _ \<Rightarrow> perm0644 AND NOT (umask ev))))
       \<and> (perm0644 AND NOT (umask ev)) AND perm0111 = 0
       \<and> chmodsOf (Join (Join (Join (dstDirPath cfg) defaultSharedDir) defaultBinDir) (last binaryPath)) (calls s')
           = chmodsOf (Join (Join (Join (dstDirPath cfg) defaultSharedDir) defaultBinDir) (last binaryPath)) (calls s)"
proof -
  let ?K = "Join (Join (Join (dstDirPath cfg) defaultSharedDir) defaultBinDir) (last binaryPath)"
  let ?L = "Join (dstDirPath cfg) ''sharun''"
  let ?B = "Join (Join (dstDirPath cfg) defaultBinDir) (last binaryPath)"
  have KL: "?K \<noteq> ?L" and L: "?L \<noteq> []" and KB: "?K \<noteq> ?B" and K: "?K \<noteq> []"
    by (simp_all add: Join_def)
  from processBinary_None [OF ok] dyn obtain fileInfo s1
    where st: "os_Stat (files s) binaryPath = Inr fileInfo"
      and m1: "os_MkdirAll ev (dstDirPath cfg) perm0755 s = (None, s1)"
      and pd: "processDynamic cfg ev binaryPath fileInfo s1 = (None, s')"
    by auto
  have nm: "Name fileInfo = last binaryPath" using st by (rule os_Stat_Name)
  from processDynamic_None [OF pd, unfolded nm] obtain dp s2 s3 s4 s5 s6 s7 s8 s9 libs s10 where
      s2: "copyFile ev dp ?L s1 = (None, s2)"
    and s3: "os_Chmod ?L perm0755 s2 = (None, s3)"
    and s4: "os_MkdirAll ev (Join (dstDirPath cfg) defaultBinDir) perm0755 s3 = (None, s4)"
    and s5: "(if createLinks cfg then createSymlink [''..'', ''sharun''] ?B s4 else (None, s4))
        = (None, s5)"
    and s6: "os_MkdirAll ev (Join (Join (dstDirPath cfg) defaultSharedDir) defaultBinDir) perm0755 s5
        = (None, s6)"
    and s7: "os_MkdirAll ev (Join (Join (dstDirPath cfg) defaultSharedDir) defaultLibDir) perm0755 s6
        = (None, s7)"
    and s8: "copyFile ev binaryPath ?K s7 = (None, s8)"
    and s9: "tryStrip cfg ev ?K s8 = (None, s9)"
    and s10: "copyLibs cfg ev (Join (Join (dstDirPath cfg) defaultSharedDir) defaultLibDir) libs s9
        = (None, s10)"
    and s': "s' = emit (ProcessedDynamic (last binaryPath)) s10"
    by blast
  \<comment> \<open>nothing touches the place of the shared copy before the copy itself\<close>
  have f1: "files s1 ?K = files s ?K"
    using m1 by (rule os_MkdirAll_frame) (simp add: Join_def)
  have l1: "\<And>t. files s1 ?L \<noteq> Some (Symlink t)"
    using nl by (simp add: dirsAdded_links [OF os_MkdirAll_dirsAdded [OF m1]])
  have f2: "files s2 ?K = files s1 ?K"
    using s2 L l1 KL by (rule copyFile_frame)
  have l2: "\<And>t. files s2 ?L \<noteq> Some (Symlink t)"
    using l1 by (simp add: copyFile_keeps_links [OF s2])
  have f3: "files s3 ?K = files s2 ?K"
    using s3 L l2 KL by (rule os_Chmod_frame)
  have f4: "files s4 ?K = files s3 ?K"
    using s4 by (rule os_MkdirAll_frame) (simp add: Join_def)
  have f5: "files s5 ?K = files s4 ?K"
    using s5 KB by (auto dest: createSymlink_frame split: if_splits)
  have f6: "files s6 ?K = files s5 ?K"
    using s6 by (rule os_MkdirAll_frame) (simp add: Join_def)
  have f7: "files s7 ?K = files s6 ?K"
    using s7 by (rule os_MkdirAll_frame) (simp add: Join_def)
  have f: "files s7 ?K = files s ?K"
    by (simp add: f1 f2 f3 f4 f5 f6 f7)
  from copyFile_None [OF s8] obtain q c m where
      q: "resolve (files s7) ?K = Inr q"
    and f8: "files s8 = (files s7)(q \<mapsto> File c m)"
    and md: "case files s7 q of Some (File c0 m0) \<Rightarrow> m = m0
             | _ \<Rightarrow> files s7 q = None \<and> m = perm0644 AND NOT (umask ev)"
    by blast
  have fin: "\<And>c8 m8. files s8 ?K = Some (File c8 m8) \<Longrightarrow> \<exists>c'. files s' ?K = Some (File c' m8)"
  proof -
    fix c8 m8 assume "files s8 ?K = Some (File c8 m8)"
    from tryStrip_keeps_perm [OF s9 this] obtain c9 where "files s9 ?K = Some (File c9 m8)"
      by blast
    from copyLibs_keeps_perm [OF s10 this] show "\<exists>c'. files s' ?K = Some (File c' m8)"
      by (simp add: s' emit_def)
  qed
  have n7: "\<And>t. files s7 ?K \<noteq> Some (Symlink t)" using nk by (simp add: f)
  have "resolve (files s7) ?K = Inr ?K" using K n7 by (rule resolve_self)
  with q have qK: "q = ?K" by simp
  have "files s8 ?K = Some (File c
          (case files s ?K of Some (File c0 m0) \<Rightarrow> m0 | _ \<Rightarrow> perm0644 AND NOT (umask ev)))"
    using md f8 f qK by (auto split: option.splits node.splits)
  from fin [OF this] have mode: "\<exists>c. files s' ?K = Some (File c
          (case files s ?K of Some (File c0 m0) \<Rightarrow> m0 | _ \<Rightarrow> perm0644 AND NOT (umask ev)))" .
  have nochmod: "chmodsOf ?K (calls s') = chmodsOf ?K (calls s)"
  proof -
    have "chmodsOf ?K (calls s') = chmodsOf ?K (calls s10)" by (simp add: s' emit_def)
    also have "\<dots> = chmodsOf ?K (calls s9)" using s10 by (rule copyLibs_chmodsOf)
    also have "\<dots> = chmodsOf ?K (calls s8)" using s9 by (rule tryStrip_chmodsOf)
    also have "\<dots> = chmodsOf ?K (calls s7)" using s8 by (rule copyFile_chmodsOf)
    also have "\<dots> = chmodsOf ?K (calls s6)" using s7 by (rule os_MkdirAll_chmodsOf)
    also have "\<dots> = chmodsOf ?K (calls s5)" using s6 by (rule os_MkdirAll_chmodsOf)
    also have "\<dots> = chmodsOf ?K (calls s4)"
      using s5 by (auto dest: createSymlink_chmodsOf split: if_splits)
    also have "\<dots> = chmodsOf ?K (calls s3)" using s4 by (rule os_MkdirAll_chmodsOf)
    also have "\<dots> = chmodsOf ?K (calls s2)" using os_Chmod_chmodsOf [OF s3, of ?K] KL by simp
    also have "\<dots> = chmodsOf ?K (calls s1)" using s2 by (rule copyFile_chmodsOf)
    also have "\<dots> = chmodsOf ?K (calls s)" using m1 by (rule os_MkdirAll_chmodsOf)
    finally show ?thesis .
  qed
  from mode nochmod show ?thesis by (simp add: no_exec_bits)
qed

text \<open>
  Claim C10, amended, on \<^verbatim>\<open>c\<close> and a fresh output tree: the copy is created with mode
  0644 (the umask 022 takes nothing from it).
\<close>

theorem shared_binary_mode_witness:
  "fst (processBinary defaultConfig exEnv [''c''] exWorld) = None
   \<and> fst (isDynamicExecutable exEnv [''c''])
   \<and> files exWorld [''output'', ''sharun''] = None
   \<and> files exWorld [''output'', ''shared'', ''bin'', ''c''] = None
   \<and> (\<exists>c. files (snd (processBinary defaultConfig exEnv [''c''] exWorld))
              [''output'', ''shared'', ''bin'', ''c''] = Some (File c 420))
   \<and> (420 :: perm) AND perm0111 = 0
   \<and> chmodsOf [''output'', ''shared'', ''bin'', ''c'']
        (calls (snd (processBinary defaultConfig exEnv [''c''] exWorld))) = 0"
proof -
  let ?s' = "snd (processBinary defaultConfig exEnv [''c''] exWorld)"
  have k: "Join (Join (Join (dstDirPath defaultConfig) defaultSharedDir) defaultBinDir) (last [''c''])
             = [''output'', ''shared'', ''bin'', ''c'']"
    and l: "Join (dstDirPath defaultConfig) ''sharun'' = [''output'', ''sharun'']"
    by (simp_all add: defaultConfig_def defaultDstDir_def defaultBinDir_def defaultSharedDir_def
          Join_def)
  have h: "fst (processBinary defaultConfig exEnv [''c''] exWorld) = None" by code_simp
  then have ok: "processBinary defaultConfig exEnv [''c''] exWorld = (None, ?s')"
    by (metis prod.collapse)
  have dyn: "fst (isDynamicExecutable exEnv [''c''])" by code_simp
  have nl: "files exWorld [''output'', ''sharun''] = None" by code_simp
  have nk: "files exWorld [''output'', ''shared'', ''bin'', ''c''] = None" by code_simp
  have um: "perm0644 AND NOT (umask exEnv) = 420" by code_simp
  have c0: "chmodsOf [''output'', ''shared'', ''bin'', ''c''] (calls exWorld) = 0" by code_simp
  have nl': "\<forall>t. files exWorld (Join (dstDirPath defaultConfig) ''sharun'') \<noteq> Some (Symlink t)"
    unfolding l by (simp add: nl)
  have nk': "\<forall>t. files exWorld
        (Join (Join (Join (dstDirPath defaultConfig) defaultSharedDir) defaultBinDir) (last [''c'']))
        \<noteq> Some (Symlink t)"
    unfolding k by (simp add: nk)
  from shared_binary_mode [OF ok dyn nl' nk', unfolded k um] nk c0
  have "(\<exists>c. files ?s' [''output'', ''shared'', ''bin'', ''c''] = Some (File c 420))
      \<and> (420 :: perm) AND perm0111 = 0
      \<and> chmodsOf [''output'', ''shared'', ''bin'', ''c''] (calls ?s') = 0"
    by simp
  with h dyn nl nk show ?thesis by blast
qed

end
